theory Spec2Isabelle
  imports Main "HOL-Library.Word"
begin

section \<open>Strings, paths and random names\<close>

text \<open>
  JavaScript strings are modelled by their UTF-8 bytes (\<open>string\<close> is \<open>char list\<close> and a
  \<open>char\<close> is a byte): this is what \<open>writeFile\<close> puts on disk and what the console streams
  carry. Every character the program itself inspects (\<open>@\<close>, \<open>/\<close>, \<open>-\<close>, \<open>=\<close>, the
  classes of the name pattern) is ASCII, and every byte of a non-ASCII character is
  outside all of those classes, as its UTF-16 code units are.
\<close>

definition nl :: string where
  "nl = [CHR 0x0A]"

text \<open>\<open>String.prototype.startsWith\<close>.\<close>

definition startsWith :: "string \<Rightarrow> string \<Rightarrow> bool" where
  "startsWith s p = (take (length p) s = p)"

text \<open>
  \<open>path.join\<close> for two segments on POSIX. \<open>os.tmpdir()\<close> hands back a path without a
  trailing separator, so the segments are joined by one \<open>/\<close>; the normalisation of
  \<open>.\<close> and \<open>..\<close> segments is not modelled.
\<close>

definition join :: "string \<Rightarrow> string \<Rightarrow> string" where
  "join a b = a @ ''/'' @ b"

definition hexdigit :: "nat \<Rightarrow> char" where
  "hexdigit n = ''0123456789abcdef'' ! (n mod 16)"

text \<open>\<open>Buffer.prototype.toString('hex')\<close>: two lowercase digits per byte.\<close>

definition toHex :: "8 word list \<Rightarrow> string" where
  "toHex bs = concat (map (\<lambda>b. [hexdigit (unat b div 16), hexdigit (unat b mod 16)]) bs)"

section \<open>The package-name pattern\<close>

text \<open>
  The regular expressions of the program, as an abstract syntax tree: \<open>^\<close>, \<open>$\<close>, a
  literal character, a character class given by its ranges (a single character \<open>c\<close> is
  the range \<open>(c, c)\<close>), concatenation, \<open>(?:r)?\<close> and \<open>r*\<close>.
\<close>

datatype regex =
    Bol
  | Eol
  | Lit char
  | Class "(char \<times> char) list"
  | Seq regex regex
  | Opt regex
  | Star regex

definition in_class :: "(char \<times> char) list \<Rightarrow> char \<Rightarrow> bool" where
  "in_class rs c =
     list_ex (\<lambda>(lo, hi). (of_char lo :: nat) \<le> of_char c \<and> (of_char c :: nat) \<le> of_char hi) rs"

text \<open>
  The backtracking matcher of ECMAScript, on a state \<open>(i, s)\<close>: the index \<open>i\<close> in the
  input and the rest \<open>s\<close> of the input from there. It returns the states after every way
  to match, in the order the engine tries them (the quantifiers are greedy). An iteration
  of \<open>*\<close> that consumes nothing is rejected, as the specification of the language
  demands: the rest must have become shorter.
\<close>

fun rmatch :: "regex \<Rightarrow> nat \<times> string \<Rightarrow> (nat \<times> string) list" where
  "rmatch Bol (i, s) = (if i = 0 then [(i, s)] else [])"
| "rmatch Eol (i, s) = (if s = [] then [(i, s)] else [])"
| "rmatch (Lit c) (i, s) =
     (case s of [] \<Rightarrow> [] | d # t \<Rightarrow> if d = c then [(Suc i, t)] else [])"
| "rmatch (Class rs) (i, s) =
     (case s of [] \<Rightarrow> [] | d # t \<Rightarrow> if in_class rs d then [(Suc i, t)] else [])"
| "rmatch (Seq a b) st = concat (map (rmatch b) (rmatch a st))"
| "rmatch (Opt a) st = rmatch a st @ [st]"
| "rmatch (Star a) st =
     concat (map (\<lambda>st'. if length (snd st') < length (snd st) then rmatch (Star a) st' else [])
                 (rmatch a st)) @ [st]"

text \<open>
  \<open>RegExp.prototype.test\<close> without the global and sticky flags: the match is tried at
  every start index from 0 to the length of the input.
\<close>

definition test :: "regex \<Rightarrow> string \<Rightarrow> bool" where
  "test r s = list_ex (\<lambda>k. rmatch r (k, drop k s) \<noteq> []) [0..<Suc (length s)]"

text \<open>
  \<^verbatim>\<open>/^(?:@[a-z0-9-~][a-z0-9-._~]*\/)?[a-z0-9-~][a-z0-9-._~]*$/\<close>
  (cli.js, line 75). In \<open>[a-z0-9-~]\<close> the hyphen after the range \<open>0-9\<close> is a literal.
\<close>

definition firstClass :: regex where
  "firstClass = Class [(CHR ''a'', CHR ''z''), (CHR ''0'', CHR ''9''),
                       (CHR ''-'', CHR ''-''), (CHR ''~'', CHR ''~'')]"

definition restClass :: regex where
  "restClass = Class [(CHR ''a'', CHR ''z''), (CHR ''0'', CHR ''9''), (CHR ''-'', CHR ''-''),
                      (CHR ''.'', CHR ''.''), (CHR ''_'', CHR ''_''), (CHR ''~'', CHR ''~'')]"

definition validPackageNameRegex :: regex where
  "validPackageNameRegex =
     Seq Bol
      (Seq (Opt (Seq (Lit CHR ''@'') (Seq firstClass (Seq (Star restClass) (Lit CHR ''/'')))))
        (Seq firstClass (Seq (Star restClass) Eol)))"

subsection \<open>The naming grammar, in the words of the specification\<close>

text \<open>
  The grammar \<^verbatim>\<open>^(@[a-z0-9-~][a-z0-9-._~]*/)?[a-z0-9-~][a-z0-9-._~]*$\<close> read as a
  language: a name part is one character of the first alphabet followed by characters of
  the second; a package name is a name part, or \<open>@\<close>, a name part, \<open>/\<close> and a name part.
\<close>

definition grammar_first :: "char \<Rightarrow> bool" where
  "grammar_first c = (c \<in> set ''abcdefghijklmnopqrstuvwxyz0123456789-~'')"

definition grammar_rest :: "char \<Rightarrow> bool" where
  "grammar_rest c = (c \<in> set ''abcdefghijklmnopqrstuvwxyz0123456789-._~'')"

definition grammar_part :: "string \<Rightarrow> bool" where
  "grammar_part s = (case s of [] \<Rightarrow> False | c # cs \<Rightarrow> grammar_first c \<and> list_all grammar_rest cs)"

definition matches_grammar :: "string \<Rightarrow> bool" where
  "matches_grammar s =
     (grammar_part s \<or>
      (\<exists>scope part. s = ''@'' @ scope @ ''/'' @ part \<and> grammar_part scope \<and> grammar_part part))"

section \<open>JSON serialisation\<close>

datatype json = JString string | JArray "json list" | JObject "(string \<times> json) list"

text \<open>
  \<open>QuoteJSONString\<close>: the quote and the backslash are escaped, the control characters
  below \<open>0x20\<close> become their short escape or \<open>\u00XX\<close>, everything else is kept.
\<close>

definition quote_char :: "char \<Rightarrow> string" where
  "quote_char c =
     (if c = CHR 0x22 then [CHR 0x5C, CHR 0x22]
      else if c = CHR 0x5C then [CHR 0x5C, CHR 0x5C]
      else if c = CHR 0x08 then [CHR 0x5C, CHR ''b'']
      else if c = CHR 0x09 then [CHR 0x5C, CHR ''t'']
      else if c = CHR 0x0A then [CHR 0x5C, CHR ''n'']
      else if c = CHR 0x0C then [CHR 0x5C, CHR ''f'']
      else if c = CHR 0x0D then [CHR 0x5C, CHR ''r'']
      else if (of_char c :: nat) < 0x20
        then [CHR 0x5C, CHR ''u'', CHR ''0'', CHR ''0'',
              hexdigit (of_char c div 16), hexdigit (of_char c mod 16)]
      else [c])"

definition QuoteJSONString :: "string \<Rightarrow> string" where
  "QuoteJSONString s = [CHR 0x22] @ concat (map quote_char s) @ [CHR 0x22]"

fun joinWith :: "string \<Rightarrow> string list \<Rightarrow> string" where
  "joinWith sep [] = []"
| "joinWith sep [x] = x"
| "joinWith sep (x # y # ys) = x @ sep @ joinWith sep (y # ys)"

text \<open>
  \<open>SerializeJSONProperty\<close> with its \<open>SerializeJSONObject\<close> and \<open>SerializeJSONArray\<close>, for
  the gap \<open>gap\<close> and the current indentation \<open>ind\<close>.
\<close>

fun SerializeJSONProperty :: "string \<Rightarrow> string \<Rightarrow> json \<Rightarrow> string" where
  "SerializeJSONProperty gap ind (JString s) = QuoteJSONString s"
| "SerializeJSONProperty gap ind (JArray xs) =
     (let stepback = ind; indent = ind @ gap;
          partial = map (SerializeJSONProperty gap indent) xs
      in if partial = [] then ''[]''
         else if gap = [] then ''['' @ joinWith '','' partial @ '']''
         else ''['' @ nl @ indent @ joinWith ('','' @ nl @ indent) partial @ nl @ stepback @ '']'')"
| "SerializeJSONProperty gap ind (JObject kvs) =
     (let stepback = ind; indent = ind @ gap;
          partial = map (\<lambda>(k, v). QuoteJSONString k @ '':'' @ (if gap = [] then [] else '' '')
                                     @ SerializeJSONProperty gap indent v) kvs
      in if partial = [] then ''{}''
         else if gap = [] then ''{'' @ joinWith '','' partial @ ''}''
         else ''{'' @ nl @ indent @ joinWith ('','' @ nl @ indent) partial @ nl @ stepback @ ''}'')"

text \<open>\<open>JSON.stringify(value, null, space)\<close> for a number \<open>space\<close>: the gap is that many
  spaces, at most ten.\<close>

definition JSON_stringify :: "json \<Rightarrow> nat \<Rightarrow> string" where
  "JSON_stringify v space = SerializeJSONProperty (replicate (min 10 space) CHR '' '') [] v"

section \<open>Values of the script\<close>

text \<open>
  The JavaScript values the script handles: \<open>undefined\<close>, booleans and strings, with
  the truthiness an \<open>if\<close> tests and the conversion a template literal or a string
  concatenation applies.
\<close>

datatype jsval = Undefined | JBool bool | JStr string

fun truthy :: "jsval \<Rightarrow> bool" where
  "truthy Undefined = False"
| "truthy (JBool b) = b"
| "truthy (JStr s) = (s \<noteq> [])"

fun ToString :: "jsval \<Rightarrow> string" where
  "ToString Undefined = ''undefined''"
| "ToString (JBool b) = (if b then ''true'' else ''false'')"
| "ToString (JStr s) = s"

section \<open>Argument parsing\<close>

text \<open>
  \<open>util.parseArgs\<close> of Node.js, as the script configures it (cli.js, lines 9 to 31):
  the table of options, \<open>allowPositionals: true\<close>, and the defaults \<open>strict: true\<close>,
  \<open>args = process.argv.slice(2)\<close>. No option is declared \<open>multiple\<close>.
\<close>

datatype opt_type = TBoolean | TString

record opt_config =
  otype :: opt_type
  oshort :: "char option"
  odefault :: jsval

type_synonym opt_table = "(string \<times> opt_config) list"

definition options :: opt_table where
  "options =
     [(''help'', \<lparr>otype = TBoolean, oshort = Some CHR ''h'', odefault = JBool False\<rparr>),
      (''version'', \<lparr>otype = TBoolean, oshort = Some CHR ''v'', odefault = JBool False\<rparr>),
      (''dry-run'', \<lparr>otype = TBoolean, oshort = None, odefault = JBool False\<rparr>),
      (''access'', \<lparr>otype = TString, oshort = None, odefault = JStr ''public''\<rparr>)]"

datatype token =
    OptionTok string string "string option" "bool option"
      \<comment> \<open>name, rawName, value, inlineValue\<close>
  | Positional string
  | OptionTerminator

datatype parse_error =
    UnknownOption string
  | ArgumentMissing string
  | TakesNoArgument string
  | AmbiguousValue string

definition optionType :: "opt_table \<Rightarrow> string \<Rightarrow> opt_type option" where
  "optionType opts longOption = map_option otype (map_of opts longOption)"

definition findLongOptionForShort :: "opt_table \<Rightarrow> char \<Rightarrow> string" where
  "findLongOptionForShort opts shortOption =
     (case find (\<lambda>(name, cfg). oshort cfg = Some shortOption) opts of
        Some (name, cfg) \<Rightarrow> name
      | None \<Rightarrow> [shortOption])"

definition isLoneShortOption :: "string \<Rightarrow> bool" where
  "isLoneShortOption arg = (length arg = 2 \<and> arg ! 0 = CHR ''-'' \<and> arg ! 1 \<noteq> CHR ''-'')"

definition isShortOptionGroup :: "opt_table \<Rightarrow> string \<Rightarrow> bool" where
  "isShortOptionGroup opts arg =
     (2 < length arg \<and> arg ! 0 = CHR ''-'' \<and> arg ! 1 \<noteq> CHR ''-'' \<and>
      optionType opts (findLongOptionForShort opts (arg ! 1)) \<noteq> Some TString)"

definition isShortOptionAndValue :: "opt_table \<Rightarrow> string \<Rightarrow> bool" where
  "isShortOptionAndValue opts arg =
     (2 < length arg \<and> arg ! 0 = CHR ''-'' \<and> arg ! 1 \<noteq> CHR ''-'' \<and>
      optionType opts (findLongOptionForShort opts (arg ! 1)) = Some TString)"

definition isLoneLongOption :: "string \<Rightarrow> bool" where
  "isLoneLongOption arg =
     (2 < length arg \<and> startsWith arg ''--'' \<and> CHR ''='' \<notin> set (drop 3 arg))"

definition isLongOptionAndValue :: "string \<Rightarrow> bool" where
  "isLongOptionAndValue arg =
     (2 < length arg \<and> startsWith arg ''--'' \<and> CHR ''='' \<in> set (drop 3 arg))"

text \<open>
  The expansion of a group of short options, on the characters after the hyphen:
  \<open>-abc\<close> becomes \<open>-a -b -c\<close>, and a string option in the middle takes the rest of the
  group as its value (\<open>-abfFILE\<close> becomes \<open>-a -b -fFILE\<close>).
\<close>

fun expandShorts :: "opt_table \<Rightarrow> string \<Rightarrow> string list" where
  "expandShorts opts [] = []"
| "expandShorts opts (c # cs) =
     (if optionType opts (findLongOptionForShort opts c) \<noteq> Some TString \<or> cs = []
      then [CHR ''-'', c] # expandShorts opts cs
      else [CHR ''-'' # c # cs])"

definition argWeight :: "opt_table \<Rightarrow> string \<Rightarrow> nat" where
  "argWeight opts arg = (if isShortOptionGroup opts arg then 2 * length arg else 1)"

lemma expandShorts_weight:
  "sum_list (map (argWeight opts) (expandShorts opts cs)) \<le> length cs"
proof (induction cs)
  case Nil
  show ?case by simp
next
  case (Cons c cs)
  have lone: "argWeight opts [CHR ''-'', c] = 1"
    by (simp add: argWeight_def isShortOptionGroup_def)
  have rest: "optionType opts (findLongOptionForShort opts c) = Some TString
                \<Longrightarrow> argWeight opts (CHR ''-'' # c # cs) = 1"
    by (simp add: argWeight_def isShortOptionGroup_def)
  from Cons lone rest show ?case by auto
qed

text \<open>
  \<open>argsToTokens\<close>: the loop over the remaining arguments. A group of short options is
  replaced by its expansion at the front of the remaining arguments and the loop goes
  on from there.
\<close>

function argsToTokens :: "opt_table \<Rightarrow> string list \<Rightarrow> token list" where
  "argsToTokens opts [] = []"
| "argsToTokens opts (arg # remainingArgs) =
     (if arg = ''--'' then OptionTerminator # map Positional remainingArgs
      else if isLoneShortOption arg then
        (let longOption = findLongOptionForShort opts (arg ! 1) in
         case remainingArgs of
           nextArg # rest \<Rightarrow>
             if optionType opts longOption = Some TString
             then OptionTok longOption arg (Some nextArg) (Some False) # argsToTokens opts rest
             else OptionTok longOption arg None None # argsToTokens opts remainingArgs
         | [] \<Rightarrow> [OptionTok longOption arg None None])
      else if isShortOptionGroup opts arg then
        argsToTokens opts (expandShorts opts (tl arg) @ remainingArgs)
      else if isShortOptionAndValue opts arg then
        OptionTok (findLongOptionForShort opts (arg ! 1)) [CHR ''-'', arg ! 1]
                  (Some (drop 2 arg)) (Some True)
          # argsToTokens opts remainingArgs
      else if isLoneLongOption arg then
        (let longOption = drop 2 arg in
         case remainingArgs of
           nextArg # rest \<Rightarrow>
             if optionType opts longOption = Some TString
             then OptionTok longOption arg (Some nextArg) (Some False) # argsToTokens opts rest
             else OptionTok longOption arg None None # argsToTokens opts remainingArgs
         | [] \<Rightarrow> [OptionTok longOption arg None None])
      else if isLongOptionAndValue arg then
        (let equalIndex = length (takeWhile (\<lambda>c. c \<noteq> CHR ''='') arg);
             longOption = take (equalIndex - 2) (drop 2 arg);
             value = drop (equalIndex + 1) arg
         in OptionTok longOption (''--'' @ longOption) (Some value) (Some True)
              # argsToTokens opts remainingArgs)
      else Positional arg # argsToTokens opts remainingArgs)"
  by pat_completeness auto
termination
proof (relation "measure (\<lambda>(opts, args). sum_list (map (argWeight opts) args))")
  show "wf (measure (\<lambda>(opts, args). sum_list (map (argWeight opts) args)))"
    by simp
next
  fix opts :: opt_table and arg :: string and remainingArgs :: "string list"
  assume "isShortOptionGroup opts arg"
  then have "argWeight opts arg = 2 * length arg" and "0 < length arg"
    by (auto simp: argWeight_def isShortOptionGroup_def)
  moreover have "sum_list (map (argWeight opts) (expandShorts opts (tl arg))) \<le> length (tl arg)"
    by (rule expandShorts_weight)
  moreover have "length (tl arg) < 2 * length arg"
    using \<open>isShortOptionGroup opts arg\<close> by (auto simp: isShortOptionGroup_def)
  ultimately have
    "sum_list (map (argWeight opts) (expandShorts opts (tl arg))) < argWeight opts arg"
    by linarith
  then show
    "((opts, expandShorts opts (tl arg) @ remainingArgs), (opts, arg # remainingArgs))
       \<in> measure (\<lambda>(opts, args). sum_list (map (argWeight opts) args))"
    by simp
qed (auto simp: argWeight_def isLoneShortOption_def isShortOptionGroup_def)

text \<open>The checks of the strict mode on an option token.\<close>

definition checkOptionUsage :: "opt_table \<Rightarrow> string \<Rightarrow> string \<Rightarrow> string option \<Rightarrow> parse_error option" where
  "checkOptionUsage opts name rawName value =
     (case optionType opts name of
        None \<Rightarrow> Some (UnknownOption rawName)
      | Some TString \<Rightarrow> (if value = None then Some (ArgumentMissing name) else None)
      | Some TBoolean \<Rightarrow> (if value \<noteq> None then Some (TakesNoArgument name) else None))"

definition isOptionLikeValue :: "string option \<Rightarrow> bool" where
  "isOptionLikeValue value =
     (case value of None \<Rightarrow> False | Some v \<Rightarrow> 1 < length v \<and> v ! 0 = CHR ''-'')"

definition checkOptionLikeValue :: "string \<Rightarrow> string option \<Rightarrow> bool option \<Rightarrow> parse_error option" where
  "checkOptionLikeValue name value inlineValue =
     (if inlineValue \<noteq> Some True \<and> isOptionLikeValue value then Some (AmbiguousValue name)
      else None)"

type_synonym parsed_values = "string \<Rightarrow> jsval"

definition storeOption :: "string \<Rightarrow> string option \<Rightarrow> parsed_values \<Rightarrow> parsed_values" where
  "storeOption longOption optionValue vals =
     (if longOption = ''__proto__'' then vals
      else vals(longOption := (case optionValue of None \<Rightarrow> JBool True | Some v \<Rightarrow> JStr v)))"

fun processTokens ::
  "opt_table \<Rightarrow> token list \<Rightarrow> parsed_values \<times> string list
     \<Rightarrow> parse_error + parsed_values \<times> string list" where
  "processTokens opts [] result = Inr result"
| "processTokens opts (OptionTok name rawName value inlineValue # toks) (vals, positionals) =
     (case checkOptionUsage opts name rawName value of
        Some err \<Rightarrow> Inl err
      | None \<Rightarrow>
          (case checkOptionLikeValue name value inlineValue of
             Some err \<Rightarrow> Inl err
           | None \<Rightarrow> processTokens opts toks (storeOption name value vals, positionals)))"
| "processTokens opts (Positional v # toks) (vals, positionals) =
     processTokens opts toks (vals, positionals @ [v])"
| "processTokens opts (OptionTerminator # toks) result = processTokens opts toks result"

text \<open>The defaults fill in the options that the arguments left undefined.\<close>

fun fillDefaults :: "opt_table \<Rightarrow> parsed_values \<Rightarrow> parsed_values" where
  "fillDefaults [] vals = vals"
| "fillDefaults ((longOption, cfg) # opts) vals =
     fillDefaults opts
       (if odefault cfg \<noteq> Undefined \<and> vals longOption = Undefined
        then vals(longOption := odefault cfg) else vals)"

definition parseArgs :: "opt_table \<Rightarrow> string list \<Rightarrow> parse_error + parsed_values \<times> string list" where
  "parseArgs opts args =
     (case processTokens opts (argsToTokens opts args) (\<lambda>_. Undefined, []) of
        Inl err \<Rightarrow> Inl err
      | Inr (vals, positionals) \<Rightarrow> Inr (fillDefaults opts vals, positionals))"

section \<open>The world of the script\<close>

text \<open>
  The file system is a map from paths to nodes. The trace records, in order, what the
  script prints and which calls it makes to the file system and to the child process.
\<close>

datatype node = Dir | File string

type_synonym filesystem = "string \<rightharpoonup> node"

datatype event =
    ConsoleLog string
  | ConsoleError string
  | ConsoleWarn string
  | MkdirCall string
  | WriteFileCall string string
  | ExecSyncCall string string
      \<comment> \<open>command, working directory\<close>
  | RmCall string
  | UncaughtParseArgsError parse_error
  | UncaughtError string

record world =
  fs :: filesystem
  trace :: "event list"

text \<open>
  What the script cannot decide is a parameter: the directory of temporary files, the
  bytes of the random source, the version of the tool's own \<open>package.json\<close> (a file that
  is not part of the sources at hand), and for every call that can fail whether it
  fails, with the message of the error it then throws.
\<close>

record env =
  tmpdir :: string
  random :: "nat \<Rightarrow> 8 word"
  pkg_version :: string
  mkdir_error :: "string \<Rightarrow> string option"
  writeFile_error :: "string \<Rightarrow> string option"
  execSync_error :: "string \<Rightarrow> string \<Rightarrow> string option"
  rm_error :: "string \<Rightarrow> string option"

text \<open>
  A statement ends normally, throws an error (of which the script reads the message
  only), or ends the process: \<open>process.exit(code)\<close> does not return and nothing of the
  script runs after it.
\<close>

datatype completion = Normal | Throw string | Exit nat

type_synonym stmt = "world \<Rightarrow> completion \<times> world"

fun block :: "stmt list \<Rightarrow> stmt" where
  "block [] w = (Normal, w)"
| "block (s # ss) w = (case s w of (Normal, w') \<Rightarrow> block ss w' | (c, w') \<Rightarrow> (c, w'))"

definition whenever :: "bool \<Rightarrow> stmt \<Rightarrow> stmt" where
  "whenever b s w = (if b then s w else (Normal, w))"

text \<open>\<open>try { body } catch (e) { handler }\<close>: only a thrown error reaches the handler.\<close>

definition try_catch :: "stmt \<Rightarrow> (string \<Rightarrow> stmt) \<Rightarrow> stmt" where
  "try_catch body handler w =
     (case body w of (Throw e, w') \<Rightarrow> handler e w' | (c, w') \<Rightarrow> (c, w'))"

text \<open>
  \<open>try { body } finally { finalizer }\<close>: the finalizer runs after a body that ended
  normally or threw, and an abrupt end of the finalizer replaces the completion of the
  body. A body that ended the process leaves no process to run the finalizer.
\<close>

definition try_finally :: "stmt \<Rightarrow> stmt \<Rightarrow> stmt" where
  "try_finally body finalizer w =
     (case body w of
        (Exit n, w') \<Rightarrow> (Exit n, w')
      | (c, w') \<Rightarrow> (case finalizer w' of (Normal, w'') \<Rightarrow> (c, w'') | (c', w'') \<Rightarrow> (c', w'')))"

definition exit :: "nat \<Rightarrow> stmt" where
  "exit code w = (Exit code, w)"

definition emit :: "event \<Rightarrow> world \<Rightarrow> world" where
  "emit ev w = w\<lparr>trace := trace w @ [ev]\<rparr>"

definition consoleLog :: "string \<Rightarrow> stmt" where
  "consoleLog s w = (Normal, emit (ConsoleLog s) w)"

definition consoleError :: "string \<Rightarrow> stmt" where
  "consoleError s w = (Normal, emit (ConsoleError s) w)"

definition consoleWarn :: "string \<Rightarrow> stmt" where
  "consoleWarn s w = (Normal, emit (ConsoleWarn s) w)"

text \<open>\<open>mkdir(path, { recursive: true })\<close>.\<close>

definition mkdir :: "env \<Rightarrow> string \<Rightarrow> stmt" where
  "mkdir e path w =
     (let w' = emit (MkdirCall path) w in
      case mkdir_error e path of
        Some msg \<Rightarrow> (Throw msg, w')
      | None \<Rightarrow> (Normal, w'\<lparr>fs := (fs w')(path \<mapsto> Dir)\<rparr>))"

definition writeFile :: "env \<Rightarrow> string \<Rightarrow> string \<Rightarrow> stmt" where
  "writeFile e path content w =
     (let w' = emit (WriteFileCall path content) w in
      case writeFile_error e path of
        Some msg \<Rightarrow> (Throw msg, w')
      | None \<Rightarrow> (Normal, w'\<lparr>fs := (fs w')(path \<mapsto> File content)\<rparr>))"

text \<open>
  \<open>rm(path, { recursive: true, force: true })\<close>: the node at the path and everything
  below it go. A removal that fails is taken to have removed nothing.
\<close>

definition rm :: "env \<Rightarrow> string \<Rightarrow> stmt" where
  "rm e path w =
     (let w' = emit (RmCall path) w in
      case rm_error e path of
        Some msg \<Rightarrow> (Throw msg, w')
      | None \<Rightarrow>
          (Normal, w'\<lparr>fs := (\<lambda>p. if p = path \<or> startsWith p (path @ ''/'') then None
                                    else fs w' p)\<rparr>))"

text \<open>\<open>execSync(command, { cwd, stdio: 'inherit' })\<close>: a command that exits with a
  status other than zero makes the call throw.\<close>

definition execSync :: "env \<Rightarrow> string \<Rightarrow> string \<Rightarrow> stmt" where
  "execSync e command cwd w =
     (let w' = emit (ExecSyncCall command cwd) w in
      case execSync_error e command cwd of
        Some msg \<Rightarrow> (Throw msg, w')
      | None \<Rightarrow> (Normal, w'))"

definition randomBytes :: "env \<Rightarrow> nat \<Rightarrow> 8 word list" where
  "randomBytes e n = map (random e) [0..<n]"

section \<open>The texts of the script\<close>

definition unlines :: "string list \<Rightarrow> string" where
  "unlines ls = concat (map (\<lambda>l. l @ nl) ls)"

definition emoji_package :: string where
  "emoji_package = [CHR 0xF0, CHR 0x9F, CHR 0x93, CHR 0xA6]"

definition emoji_folder :: string where
  "emoji_folder = [CHR 0xF0, CHR 0x9F, CHR 0x93, CHR 0x81]"

definition emoji_warning :: string where
  "emoji_warning = [CHR 0xE2, CHR 0x9A, CHR 0xA0, CHR 0xEF, CHR 0xB8, CHR 0x8F]"

definition emoji_check :: string where
  "emoji_check = [CHR 0xE2, CHR 0x9C, CHR 0x85]"

definition emoji_magnifier :: string where
  "emoji_magnifier = [CHR 0xF0, CHR 0x9F, CHR 0x94, CHR 0x8D]"

definition emoji_outbox :: string where
  "emoji_outbox = [CHR 0xF0, CHR 0x9F, CHR 0x93, CHR 0xA4]"

definition emoji_link :: string where
  "emoji_link = [CHR 0xF0, CHR 0x9F, CHR 0x94, CHR 0x97]"

definition emoji_cross :: string where
  "emoji_cross = [CHR 0xE2, CHR 0x9D, CHR 0x8C]"

definition emoji_broom :: string where
  "emoji_broom = [CHR 0xF0, CHR 0x9F, CHR 0xA7, CHR 0xB9]"

text \<open>The usage text (cli.js, lines 34 to 56).\<close>

definition usage :: string where
  "usage = nl @ unlines
     [''Usage: setup-npm-trusted-publish <package-name>'',
      '''',
      ''Setup npm package for trusted publishing with OIDC by publishing a placeholder package'',
      '''',
      ''Arguments:'',
      ''  <package-name>  The name of the npm package to setup'',
      '''',
      ''Options:'',
      ''  -h, --help      Show help'',
      ''  -v, --version   Show version'',
      ''  --dry-run       Create the package but don't publish'',
      ''  --access        Access level for scoped packages (public/restricted) [default: public]'',
      '''',
      ''Example:'',
      ''  setup-npm-trusted-publish my-package'',
      ''  setup-npm-trusted-publish @scope/my-package'',
      '''',
      ''Note:'',
      ''  This tool creates and publishes a placeholder package for OIDC setup.'',
      ''  The package contains only a README.md that clearly indicates it's for'',
      ''  OIDC configuration purposes only.'']"

text \<open>The manifest (cli.js, lines 92 to 97).\<close>

definition packageJson :: "string \<Rightarrow> json" where
  "packageJson packageName =
     JObject
      [(''name'', JString packageName),
       (''version'', JString ''0.0.1''),
       (''description'', JString (''OIDC trusted publishing setup package for '' @ packageName)),
       (''keywords'', JArray [JString ''oidc'', JString ''trusted-publishing'', JString ''setup''])]"

text \<open>The notice document (cli.js, lines 105 to 150).\<close>

definition readmeContent :: "string \<Rightarrow> string" where
  "readmeContent packageName = unlines
     [''# '' @ packageName,
      '''',
      ''## '' @ emoji_warning @ '' IMPORTANT NOTICE '' @ emoji_warning,
      '''',
      ''**This package is created solely for the purpose of setting up OIDC (OpenID Connect) trusted publishing with npm.**'',
      '''',
      ''This is **NOT** a functional package and contains **NO** code or functionality beyond the OIDC setup configuration.'',
      '''',
      ''## Purpose'',
      '''',
      ''This package exists to:'',
      ''1. Configure OIDC trusted publishing for the package name `'' @ packageName @ ''`'',
      ''2. Enable secure, token-less publishing from CI/CD workflows'',
      ''3. Establish provenance for packages published under this name'',
      '''',
      ''## What is OIDC Trusted Publishing?'',
      '''',
      ''OIDC trusted publishing allows package maintainers to publish packages directly from their CI/CD workflows without needing to manage npm access tokens. Instead, it uses OpenID Connect to establish trust between the CI/CD provider (like GitHub Actions) and npm.'',
      '''',
      ''## Setup Instructions'',
      '''',
      ''To properly configure OIDC trusted publishing for this package:'',
      '''',
      ''1. Go to [npmjs.com](https://www.npmjs.com/) and navigate to your package settings'',
      ''2. Configure the trusted publisher (e.g., GitHub Actions)'',
      ''3. Specify the repository and workflow that should be allowed to publish'',
      ''4. Use the configured workflow to publish your actual package'',
      '''',
      ''## DO NOT USE THIS PACKAGE'',
      '''',
      ''This package is a placeholder for OIDC configuration only. It:'',
      ''- Contains no executable code'',
      ''- Provides no functionality'',
      ''- Should not be installed as a dependency'',
      ''- Exists only for administrative purposes'',
      '''',
      ''## More Information'',
      '''',
      ''For more details about npm's trusted publishing feature, see:'',
      ''- [npm Trusted Publishing Documentation](https://docs.npmjs.com/generating-provenance-statements)'',
      ''- [GitHub Actions OIDC Documentation](https://docs.github.com/en/actions/deployment/security-hardening-your-deployments/about-security-hardening-with-openid-connect)'',
      '''',
      ''---'',
      '''',
      ''**Maintained for OIDC setup purposes only**'']"

text \<open>
  The command of the publication (cli.js, lines 166 to 168) and the line of the manual
  instructions (lines 161 and 188).
\<close>

definition publishCmd :: "string \<Rightarrow> jsval \<Rightarrow> string" where
  "publishCmd packageName access =
     (if startsWith packageName ''@'' then ''npm publish --access '' @ ToString access
      else ''npm publish'')"

definition manualPublishLine :: "string \<Rightarrow> jsval \<Rightarrow> string" where
  "manualPublishLine packageName access =
     ''  npm publish'' @ (if startsWith packageName ''@'' then '' --access '' @ ToString access
                          else [])"

section \<open>The script\<close>

text \<open>The body of the \<open>try\<close> (cli.js, lines 90 to 191).\<close>

definition tryBody :: "env \<Rightarrow> parsed_values \<Rightarrow> string \<Rightarrow> string \<Rightarrow> stmt" where
  "tryBody e vals packageName packageDir =
     block
      [writeFile e (join packageDir ''package.json'')
         (JSON_stringify (packageJson packageName) 2 @ nl),
       writeFile e (join packageDir ''README.md'') (readmeContent packageName),
       consoleLog (emoji_check @ '' Created placeholder package files''),
       if truthy (vals ''dry-run'') then
         block
          [consoleLog (nl @ emoji_magnifier @ '' Dry run mode - package created but not published''),
           consoleLog (emoji_folder @ '' Package location: '' @ packageDir),
           consoleLog (nl @ ''To publish manually:''),
           consoleLog (''  cd '' @ packageDir),
           consoleLog (manualPublishLine packageName (vals ''access''))]
       else
         block
          [consoleLog (nl @ emoji_outbox @ '' Publishing package to npm...''),
           try_catch
            (block
              [execSync e (publishCmd packageName (vals ''access'')) packageDir,
               consoleLog (nl @ emoji_check @ '' Successfully published: '' @ packageName),
               consoleLog (nl @ emoji_link @ '' View your package at: https://www.npmjs.com/package/''
                             @ packageName),
               consoleLog (nl @ ''Next steps:''),
               consoleLog (''1. Go to https://www.npmjs.com/package/'' @ packageName @ ''/access''),
               consoleLog ''2. Configure OIDC trusted publishing'',
               consoleLog ''3. Set up your CI/CD workflow to publish with OIDC''])
            (\<lambda>publishError.
               block
                [consoleError (nl @ emoji_cross @ '' Failed to publish package''),
                 consoleError (''Error: '' @ publishError),
                 consoleLog (nl @ emoji_folder @ '' Package files are still available at: ''
                               @ packageDir),
                 consoleLog ''You can try publishing manually:'',
                 consoleLog (''  cd '' @ packageDir),
                 consoleLog (manualPublishLine packageName (vals ''access'')),
                 exit 1])]]"

text \<open>The \<open>finally\<close> (cli.js, lines 195 to 205).\<close>

definition finallyBlock :: "env \<Rightarrow> parsed_values \<Rightarrow> string \<Rightarrow> stmt" where
  "finallyBlock e vals packageDir =
     whenever (\<not> truthy (vals ''dry-run''))
      (try_catch
        (block
          [rm e packageDir,
           consoleLog (nl @ emoji_broom @ '' Cleaned up temp directory'')])
        (\<lambda>cleanupError.
           consoleWarn (emoji_warning @ ''  Could not clean up temp directory: '' @ cleanupError)))"

definition tempDirName :: "env \<Rightarrow> string" where
  "tempDirName e = ''npm-oidc-setup-'' @ toHex (randomBytes e 8)"

definition packageDir :: "env \<Rightarrow> string" where
  "packageDir e = join (tmpdir e) (tempDirName e)"

text \<open>The script from the validation of the name on (cli.js, lines 74 to 205).\<close>

definition withPackageName :: "env \<Rightarrow> parsed_values \<Rightarrow> string \<Rightarrow> stmt" where
  "withPackageName e vals packageName =
     block
      [whenever (\<not> test validPackageNameRegex packageName)
         (block
           [consoleError (''Error: Invalid package name: '' @ packageName),
            consoleError ''Package names must be lowercase and can contain letters, numbers, hyphens, periods, and underscores'',
            exit 1]),
       mkdir e (packageDir e),
       consoleLog (emoji_package @ '' Creating placeholder package: '' @ packageName),
       consoleLog (emoji_folder @ '' Temp directory: '' @ packageDir e),
       try_finally
        (try_catch (tryBody e vals packageName (packageDir e))
          (\<lambda>error. block [consoleError (nl @ emoji_cross @ '' Error: '' @ error), exit 1]))
        (finallyBlock e vals (packageDir e))]"

definition missingPackageName :: stmt where
  "missingPackageName =
     block
      [consoleError ''Error: Package name is required'',
       consoleError ''Usage: setup-npm-trusted-publish <package-name>'',
       exit 1]"

text \<open>
  The script after \<open>parseArgs\<close> (cli.js, lines 33 to 205). \<open>positionals[0]\<close> is
  \<open>undefined\<close> for an empty list, and \<open>!packageName\<close> holds for \<open>undefined\<close> and for
  the empty string.
\<close>

definition script :: "env \<Rightarrow> parsed_values \<Rightarrow> string list \<Rightarrow> stmt" where
  "script e vals positionals =
     block
      [whenever (truthy (vals ''help'')) (block [consoleLog usage, exit 0]),
       whenever (truthy (vals ''version'')) (block [consoleLog (pkg_version e), exit 0]),
       (case positionals of
          [] \<Rightarrow> missingPackageName
        | packageName # _ \<Rightarrow>
            if packageName = [] then missingPackageName
            else withPackageName e vals packageName)]"

text \<open>
  A run of the tool on the arguments \<open>argv\<close> (those after the name of the script) from
  the file system \<open>fs0\<close>: the status of the process and the world it leaves. An error
  that nothing catches ends the process with status 1, and so does a failure of
  \<open>parseArgs\<close>, which the script calls outside of any \<open>try\<close>.
\<close>

definition run :: "env \<Rightarrow> string list \<Rightarrow> filesystem \<Rightarrow> nat \<times> world" where
  "run e argv fs0 =
     (case parseArgs options argv of
        Inl err \<Rightarrow> (1, \<lparr>fs = fs0, trace = [UncaughtParseArgsError err]\<rparr>)
      | Inr (vals, positionals) \<Rightarrow>
          (case script e vals positionals \<lparr>fs = fs0, trace = []\<rparr> of
             (Normal, w) \<Rightarrow> (0, w)
           | (Throw msg, w) \<Rightarrow> (1, emit (UncaughtError msg) w)
           | (Exit code, w) \<Rightarrow> (code, w)))"

section \<open>Invocations\<close>

text \<open>
  The invocations the properties speak of, read off the arguments as \<open>parseArgs\<close>
  understands them: the help flag is given; the arguments ask neither for the help nor
  for the version and give \<open>s\<close> as the positional package name; the dry-run flag is
  given; the value of the access option.
\<close>

definition helpRequested :: "string list \<Rightarrow> bool" where
  "helpRequested argv =
     (case parseArgs options argv of Inl _ \<Rightarrow> False | Inr (vals, _) \<Rightarrow> truthy (vals ''help''))"

definition namesPackage :: "string list \<Rightarrow> string \<Rightarrow> bool" where
  "namesPackage argv s =
     (case parseArgs options argv of
        Inl _ \<Rightarrow> False
      | Inr (vals, positionals) \<Rightarrow>
          \<not> truthy (vals ''help'') \<and> \<not> truthy (vals ''version'') \<and>
          (case positionals of [] \<Rightarrow> False | p # _ \<Rightarrow> p = s))"

definition dryRun :: "string list \<Rightarrow> bool" where
  "dryRun argv =
     (case parseArgs options argv of Inl _ \<Rightarrow> False | Inr (vals, _) \<Rightarrow> truthy (vals ''dry-run''))"

definition accessValue :: "string list \<Rightarrow> jsval" where
  "accessValue argv =
     (case parseArgs options argv of Inl _ \<Rightarrow> Undefined | Inr (vals, _) \<Rightarrow> vals ''access'')"

text \<open>
  A scoped name in the sense of the naming grammar: \<open>@\<close>, a name part, \<open>/\<close> and a
  name part.
\<close>

definition scoped :: "string \<Rightarrow> bool" where
  "scoped s =
     (\<exists>scope part. s = ''@'' @ scope @ ''/'' @ part \<and> grammar_part scope \<and> grammar_part part)"

text \<open>
  An environment for the examples: every call succeeds. The variants make the
  publication or the removal fail.
\<close>

definition quietEnv :: env where
  "quietEnv =
     \<lparr>tmpdir = ''/tmp'', random = (\<lambda>i. of_nat (17 * i + 171)), pkg_version = ''1.0.0'',
      mkdir_error = (\<lambda>_. None), writeFile_error = (\<lambda>_. None),
      execSync_error = (\<lambda>_ _. None), rm_error = (\<lambda>_. None)\<rparr>"

definition publishFailsEnv :: env where
  "publishFailsEnv =
     quietEnv\<lparr>execSync_error := (\<lambda>command _. Some (''Command failed: '' @ command))\<rparr>"

definition rmFailsEnv :: env where
  "rmFailsEnv = quietEnv\<lparr>rm_error := (\<lambda>_. Some ''EBUSY: resource busy or locked'')\<rparr>"

section \<open>What a run leaves behind\<close>

text \<open>
  The pieces of the trace and of the file system that the branches of the script
  produce, named after the branch; the lemmas on the runs show that the script
  produces exactly these.
\<close>

definition manifestPath :: "env \<Rightarrow> string" where
  "manifestPath e = join (packageDir e) ''package.json''"

definition readmePath :: "env \<Rightarrow> string" where
  "readmePath e = join (packageDir e) ''README.md''"

definition manifestText :: "string \<Rightarrow> string" where
  "manifestText s = JSON_stringify (packageJson s) 2 @ nl"

definition generatedFiles :: "env \<Rightarrow> string \<Rightarrow> filesystem \<Rightarrow> filesystem" where
  "generatedFiles e s fs0 =
     fs0(packageDir e \<mapsto> Dir,
         manifestPath e \<mapsto> File (manifestText s),
         readmePath e \<mapsto> File (readmeContent s))"

definition removed :: "env \<Rightarrow> filesystem \<Rightarrow> filesystem" where
  "removed e fs1 =
     (\<lambda>p. if p = packageDir e \<or> startsWith p (packageDir e @ ''/'') then None else fs1 p)"

definition announceEvents :: "env \<Rightarrow> string \<Rightarrow> event list" where
  "announceEvents e s =
     [MkdirCall (packageDir e),
      ConsoleLog (emoji_package @ '' Creating placeholder package: '' @ s),
      ConsoleLog (emoji_folder @ '' Temp directory: '' @ packageDir e)]"

definition generationEvents :: "env \<Rightarrow> string \<Rightarrow> event list" where
  "generationEvents e s =
     announceEvents e s @
     [WriteFileCall (manifestPath e) (manifestText s),
      WriteFileCall (readmePath e) (readmeContent s),
      ConsoleLog (emoji_check @ '' Created placeholder package files'')]"

definition dryRunEvents :: "env \<Rightarrow> string \<Rightarrow> jsval \<Rightarrow> event list" where
  "dryRunEvents e s access =
     [ConsoleLog (nl @ emoji_magnifier @ '' Dry run mode - package created but not published''),
      ConsoleLog (emoji_folder @ '' Package location: '' @ packageDir e),
      ConsoleLog (nl @ ''To publish manually:''),
      ConsoleLog (''  cd '' @ packageDir e),
      ConsoleLog (manualPublishLine s access)]"

definition publishEvents :: "env \<Rightarrow> string \<Rightarrow> jsval \<Rightarrow> event list" where
  "publishEvents e s access =
     [ConsoleLog (nl @ emoji_outbox @ '' Publishing package to npm...''),
      ExecSyncCall (publishCmd s access) (packageDir e)]"

definition successEvents :: "string \<Rightarrow> event list" where
  "successEvents s =
     [ConsoleLog (nl @ emoji_check @ '' Successfully published: '' @ s),
      ConsoleLog (nl @ emoji_link @ '' View your package at: https://www.npmjs.com/package/'' @ s),
      ConsoleLog (nl @ ''Next steps:''),
      ConsoleLog (''1. Go to https://www.npmjs.com/package/'' @ s @ ''/access''),
      ConsoleLog ''2. Configure OIDC trusted publishing'',
      ConsoleLog ''3. Set up your CI/CD workflow to publish with OIDC'']"

definition failureEvents :: "env \<Rightarrow> string \<Rightarrow> jsval \<Rightarrow> string \<Rightarrow> event list" where
  "failureEvents e s access msg =
     [ConsoleError (nl @ emoji_cross @ '' Failed to publish package''),
      ConsoleError (''Error: '' @ msg),
      ConsoleLog (nl @ emoji_folder @ '' Package files are still available at: '' @ packageDir e),
      ConsoleLog ''You can try publishing manually:'',
      ConsoleLog (''  cd '' @ packageDir e),
      ConsoleLog (manualPublishLine s access)]"

definition cleanedEvents :: "env \<Rightarrow> event list" where
  "cleanedEvents e =
     [RmCall (packageDir e), ConsoleLog (nl @ emoji_broom @ '' Cleaned up temp directory'')]"

definition cleanupFailedEvents :: "env \<Rightarrow> string \<Rightarrow> event list" where
  "cleanupFailedEvents e msg =
     [RmCall (packageDir e),
      ConsoleWarn (emoji_warning @ ''  Could not clean up temp directory: '' @ msg)]"

text \<open>The events of a trace that belong to the cleanup: a removal or a warning.\<close>

fun isCleanupEvent :: "event \<Rightarrow> bool" where
  "isCleanupEvent (RmCall p) = True"
| "isCleanupEvent (ConsoleWarn m) = True"
| "isCleanupEvent ev = False"

section \<open>The pattern accepts exactly the naming grammar\<close>

lemma of_char_mem:
  assumes "(of_char c :: nat) \<in> of_char ` set cs"
  shows "c \<in> set cs"
  using assms by auto

lemma range_az: "(97 \<le> (of_char c :: nat) \<and> (of_char c :: nat) \<le> 122) \<longleftrightarrow> c \<in> set ''abcdefghijklmnopqrstuvwxyz''"
proof
  assume "97 \<le> (of_char c :: nat) \<and> (of_char c :: nat) \<le> 122"
  then have "(of_char c :: nat) \<in> {97..<123}" by simp
  also have "{97..<123::nat} = set [97..<123]" by (simp only: set_upt)
  also have "\<dots> = of_char ` set ''abcdefghijklmnopqrstuvwxyz''"
    by (simp add: upt_rec)
  finally show "c \<in> set ''abcdefghijklmnopqrstuvwxyz''" by (rule of_char_mem)
next
  assume "c \<in> set ''abcdefghijklmnopqrstuvwxyz''"
  then show "97 \<le> (of_char c :: nat) \<and> (of_char c :: nat) \<le> 122" by auto
qed

lemma range_09: "(48 \<le> (of_char c :: nat) \<and> (of_char c :: nat) \<le> 57) \<longleftrightarrow> c \<in> set ''0123456789''"
proof
  assume "48 \<le> (of_char c :: nat) \<and> (of_char c :: nat) \<le> 57"
  then have "(of_char c :: nat) \<in> {48..<58}" by simp
  also have "{48..<58::nat} = set [48..<58]" by (simp only: set_upt)
  also have "\<dots> = of_char ` set ''0123456789''"
    by (simp add: upt_rec)
  finally show "c \<in> set ''0123456789''" by (rule of_char_mem)
next
  assume "c \<in> set ''0123456789''"
  then show "48 \<le> (of_char c :: nat) \<and> (of_char c :: nat) \<le> 57" by auto
qed

lemma single: "((of_char d :: nat) \<le> of_char c \<and> (of_char c :: nat) \<le> of_char d) \<longleftrightarrow> c = d"
  by auto

lemma first_ok: "in_class [(CHR ''a'', CHR ''z''), (CHR ''0'', CHR ''9''),
                       (CHR ''-'', CHR ''-''), (CHR ''~'', CHR ''~'')] c = grammar_first c"
proof -
  have "in_class [(CHR ''a'', CHR ''z''), (CHR ''0'', CHR ''9''),
                       (CHR ''-'', CHR ''-''), (CHR ''~'', CHR ''~'')] c
        \<longleftrightarrow> (97 \<le> (of_char c :: nat) \<and> (of_char c :: nat) \<le> 122) \<or>
            (48 \<le> (of_char c :: nat) \<and> (of_char c :: nat) \<le> 57) \<or> c = CHR ''-'' \<or> c = CHR ''~''"
    using single[of "CHR ''-''" c] single[of "CHR ''~''" c] by (simp add: in_class_def)
  also have "\<dots> \<longleftrightarrow> grammar_first c"
    unfolding range_az range_09 by (auto simp: grammar_first_def)
  finally show ?thesis .
qed

lemma rest_ok: "in_class [(CHR ''a'', CHR ''z''), (CHR ''0'', CHR ''9''), (CHR ''-'', CHR ''-''),
                      (CHR ''.'', CHR ''.''), (CHR ''_'', CHR ''_''), (CHR ''~'', CHR ''~'')] c = grammar_rest c"
proof -
  have "in_class [(CHR ''a'', CHR ''z''), (CHR ''0'', CHR ''9''), (CHR ''-'', CHR ''-''),
                      (CHR ''.'', CHR ''.''), (CHR ''_'', CHR ''_''), (CHR ''~'', CHR ''~'')] c
        \<longleftrightarrow> (97 \<le> (of_char c :: nat) \<and> (of_char c :: nat) \<le> 122) \<or>
            (48 \<le> (of_char c :: nat) \<and> (of_char c :: nat) \<le> 57) \<or> c = CHR ''-'' \<or> c = CHR ''.''
             \<or> c = CHR ''_'' \<or> c = CHR ''~''"
    using single[of "CHR ''-''" c] single[of "CHR ''~''" c] single[of "CHR ''.''" c] single[of "CHR ''_''" c]
    by (simp add: in_class_def)
  also have "\<dots> \<longleftrightarrow> grammar_rest c"
    unfolding range_az range_09 by (auto simp: grammar_rest_def)
  finally show ?thesis .
qed


declare rmatch.simps [simp del]

lemma rmatch_Lit_iff:
  "st' \<in> set (rmatch (Lit c) (i, s)) \<longleftrightarrow> (\<exists>t. s = c # t \<and> st' = (Suc i, t))"
  by (cases s) (auto simp: rmatch.simps(3))

lemma rmatch_Class_iff:
  "st' \<in> set (rmatch (Class rs) (i, s)) \<longleftrightarrow> (\<exists>d t. s = d # t \<and> in_class rs d \<and> st' = (Suc i, t))"
  by (cases s) (auto simp: rmatch.simps(4))

lemma rmatch_Seq_iff:
  "st'' \<in> set (rmatch (Seq a b) st) \<longleftrightarrow> (\<exists>st' \<in> set (rmatch a st). st'' \<in> set (rmatch b st'))"
  by (auto simp: rmatch.simps(5))

lemma rmatch_Star_Class_Nil: "rmatch (Star (Class rs)) (i, []) = [(i, [])]"
  by (subst rmatch.simps(7)) (simp add: rmatch.simps(4))

lemma rmatch_Star_Class_Cons:
  "rmatch (Star (Class rs)) (i, d # t) =
     (if in_class rs d then rmatch (Star (Class rs)) (Suc i, t) @ [(i, d # t)] else [(i, d # t)])"
  by (subst rmatch.simps(7)) (simp add: rmatch.simps(4))

lemma rmatch_Star_Class_iff:
  "st' \<in> set (rmatch (Star (Class rs)) (i, s)) \<longleftrightarrow>
     (\<exists>u t. s = u @ t \<and> list_all (in_class rs) u \<and> st' = (i + length u, t))"
proof (induction s arbitrary: i)
  case Nil
  show ?case by (auto simp: rmatch_Star_Class_Nil)
next
  case (Cons d s)
  show ?case
  proof (cases "in_class rs d")
    case True
    have "st' \<in> set (rmatch (Star (Class rs)) (i, d # s)) \<longleftrightarrow>
            st' = (i, d # s) \<or> (\<exists>u t. s = u @ t \<and> list_all (in_class rs) u \<and> st' = (Suc i + length u, t))"
      using True Cons.IH[of "Suc i"] by (auto simp: rmatch_Star_Class_Cons)
    also have "\<dots> \<longleftrightarrow> (\<exists>u t. d # s = u @ t \<and> list_all (in_class rs) u \<and> st' = (i + length u, t))"
      (is "?L \<longleftrightarrow> ?R")
    proof
      assume ?L
      then show ?R
      proof
        assume "st' = (i, d # s)"
        then have "d # s = [] @ (d # s) \<and> list_all (in_class rs) [] \<and> st' = (i + length ([]::string), d # s)"
          by simp
        then show ?R by blast
      next
        assume "\<exists>u t. s = u @ t \<and> list_all (in_class rs) u \<and> st' = (Suc i + length u, t)"
        then obtain u t where "s = u @ t" "list_all (in_class rs) u" "st' = (Suc i + length u, t)"
          by blast
        with True have "d # s = (d # u) @ t \<and> list_all (in_class rs) (d # u) \<and> st' = (i + length (d # u), t)"
          by simp
        then show ?R by blast
      qed
    next
      assume ?R
      then obtain u t where ut: "d # s = u @ t" "list_all (in_class rs) u" "st' = (i + length u, t)"
        by blast
      show ?L
      proof (cases u)
        case Nil
        with ut show ?thesis by simp
      next
        case (Cons d' u')
        with ut have "s = u' @ t \<and> list_all (in_class rs) u' \<and> st' = (Suc i + length u', t)"
          by simp
        then show ?thesis by blast
      qed
    qed
    finally show ?thesis .
  next
    case False
    have "st' \<in> set (rmatch (Star (Class rs)) (i, d # s)) \<longleftrightarrow> st' = (i, d # s)"
      using False by (simp add: rmatch_Star_Class_Cons)
    also have "\<dots> \<longleftrightarrow> (\<exists>u t. d # s = u @ t \<and> list_all (in_class rs) u \<and> st' = (i + length u, t))"
      (is "?L \<longleftrightarrow> ?R")
    proof
      assume ?L
      then have "d # s = [] @ (d # s) \<and> list_all (in_class rs) [] \<and> st' = (i + length ([]::string), d # s)"
        by simp
      then show ?R by blast
    next
      assume ?R
      then obtain u t where ut: "d # s = u @ t" "list_all (in_class rs) u" "st' = (i + length u, t)"
        by blast
      with False have "u = []" by (cases u) auto
      with ut show ?L by simp
    qed
    finally show ?thesis .
  qed
qed

text \<open>A name part followed by a continuation \<open>k\<close>.\<close>

lemma rmatch_part_iff:
  "st' \<in> set (rmatch (Seq firstClass (Seq (Star restClass) k)) (i, s)) \<longleftrightarrow>
     (\<exists>p t. s = p @ t \<and> grammar_part p \<and> st' \<in> set (rmatch k (i + length p, t)))"
  (is "?L \<longleftrightarrow> ?R")
proof
  assume ?L
  then obtain d t u t' where
    "s = d # t" "grammar_first d" "t = u @ t'" "list_all grammar_rest u"
    "st' \<in> set (rmatch k (Suc i + length u, t'))"
    unfolding firstClass_def restClass_def rmatch_Seq_iff
    by (auto simp: rmatch_Class_iff rmatch_Star_Class_iff first_ok rest_ok list_all_iff)
  then have "s = (d # u) @ t' \<and> grammar_part (d # u) \<and> st' \<in> set (rmatch k (i + length (d # u), t'))"
    by (simp add: grammar_part_def)
  then show ?R by blast
next
  assume ?R
  then obtain p t where pt: "s = p @ t" "grammar_part p" "st' \<in> set (rmatch k (i + length p, t))"
    by blast
  then obtain d u where du: "p = d # u" "grammar_first d" "list_all grammar_rest u"
    by (auto simp: grammar_part_def split: list.splits)
  have "(Suc i, u @ t) \<in> set (rmatch firstClass (i, s))"
    using pt du by (simp add: firstClass_def rmatch_Class_iff first_ok)
  moreover have "(Suc i + length u, t) \<in> set (rmatch (Star restClass) (Suc i, u @ t))"
    unfolding restClass_def rmatch_Star_Class_iff rest_ok using du by (auto simp: list_all_iff)
  moreover have "st' \<in> set (rmatch k (Suc i + length u, t))"
    using pt du by simp
  ultimately show ?L
    unfolding rmatch_Seq_iff by blast
qed

lemma test_anchored: "test (Seq Bol r) s \<longleftrightarrow> rmatch r (0, s) \<noteq> []"
proof -
  have "rmatch (Seq Bol r) (k, t) = (if k = 0 then rmatch r (0, t) else [])" for k t
    by (simp add: rmatch.simps(1) rmatch.simps(5))
  then have "test (Seq Bol r) s \<longleftrightarrow> (\<exists>k \<in> set [0..<Suc (length s)]. k = 0 \<and> rmatch r (0, drop k s) \<noteq> [])"
    unfolding test_def list_ex_iff by auto
  also have "\<dots> \<longleftrightarrow> rmatch r (0, s) \<noteq> []"
    by auto
  finally show ?thesis .
qed

lemma nonempty_iff: "xs \<noteq> [] \<longleftrightarrow> (\<exists>x. x \<in> set xs)"
  by (cases xs) auto

lemma rmatch_part_Eol: "rmatch (Seq firstClass (Seq (Star restClass) Eol)) (i, s) \<noteq> [] \<longleftrightarrow> grammar_part s"
proof -
  have "(\<exists>st'. st' \<in> set (rmatch (Seq firstClass (Seq (Star restClass) Eol)) (i, s))) \<longleftrightarrow> grammar_part s"
    unfolding rmatch_part_iff by (auto simp: rmatch.simps(2))
  then show ?thesis
    unfolding nonempty_iff .
qed

lemma rmatch_scope_iff:
  "st' \<in> set (rmatch (Seq (Lit CHR ''@'') (Seq firstClass (Seq (Star restClass) (Lit CHR ''/'')))) (0, s)) \<longleftrightarrow>
      (\<exists>p t. s = ''@'' @ p @ ''/'' @ t \<and> grammar_part p \<and> st' = (Suc (Suc (length p)), t))"
  (is "?L \<longleftrightarrow> ?R")
proof
  assume ?L
  then obtain st0 where st0: "st0 \<in> set (rmatch (Lit CHR ''@'') (0, s))"
      "st' \<in> set (rmatch (Seq firstClass (Seq (Star restClass) (Lit CHR ''/''))) st0)"
    unfolding rmatch_Seq_iff[of _ "Lit CHR ''@''"] by blast
  from st0(1) obtain r where r: "s = CHR ''@'' # r" "st0 = (Suc 0, r)"
    unfolding rmatch_Lit_iff by blast
  have "st' \<in> set (rmatch (Seq firstClass (Seq (Star restClass) (Lit CHR ''/''))) (Suc 0, r))"
    using st0(2) unfolding r(2) .
  then obtain p t where pt: "r = p @ t" "grammar_part p"
      "st' \<in> set (rmatch (Lit CHR ''/'') (Suc 0 + length p, t))"
    unfolding rmatch_part_iff by blast
  from pt(3) obtain t' where "t = CHR ''/'' # t'" "st' = (Suc (Suc 0 + length p), t')"
    unfolding rmatch_Lit_iff by blast
  with r pt have "s = ''@'' @ p @ ''/'' @ t' \<and> grammar_part p \<and> st' = (Suc (Suc (length p)), t')"
    by simp
  then show ?R by blast
next
  assume ?R
  then obtain p t where pt: "s = ''@'' @ p @ ''/'' @ t" "grammar_part p" "st' = (Suc (Suc (length p)), t)"
    by blast
  have "(Suc 0, p @ ''/'' @ t) \<in> set (rmatch (Lit CHR ''@'') (0, s))"
    using pt unfolding rmatch_Lit_iff by simp
  moreover have "st' \<in> set (rmatch (Lit CHR ''/'') (Suc 0 + length p, ''/'' @ t))"
    using pt unfolding rmatch_Lit_iff by simp
  then have "st' \<in> set (rmatch (Seq firstClass (Seq (Star restClass) (Lit CHR ''/''))) (Suc 0, p @ ''/'' @ t))"
    unfolding rmatch_part_iff using pt(2) by blast
  ultimately show ?L
    unfolding rmatch_Seq_iff[of _ "Lit CHR ''@''"] by blast
qed

lemma rmatch_Opt_Seq_nonempty:
  "rmatch (Seq (Opt a) b) st \<noteq> [] \<longleftrightarrow> (\<exists>st'. st' \<in> set (rmatch a st) \<and> rmatch b st' \<noteq> []) \<or> rmatch b st \<noteq> []"
proof -
  have "rmatch (Seq (Opt a) b) st = concat (map (rmatch b) (rmatch a st)) @ rmatch b st"
    by (simp only: rmatch.simps(5) rmatch.simps(6) map_append concat_append list.map concat.simps append_Nil2)
  then show ?thesis
    by (auto simp only: append_is_Nil_conv concat_eq_Nil_conv set_map image_iff Bex_def de_Morgan_conj)
qed

lemma accepts_iff_grammar: "test validPackageNameRegex s \<longleftrightarrow> matches_grammar s"
proof -
  let ?T = "Seq firstClass (Seq (Star restClass) Eol)"
  let ?S = "Seq (Lit CHR ''@'') (Seq firstClass (Seq (Star restClass) (Lit CHR ''/'')))"
  have "test validPackageNameRegex s \<longleftrightarrow> rmatch (Seq (Opt ?S) ?T) (0, s) \<noteq> []"
    unfolding validPackageNameRegex_def by (rule test_anchored)
  also have "\<dots> \<longleftrightarrow> (\<exists>st'. st' \<in> set (rmatch ?S (0, s)) \<and> rmatch ?T st' \<noteq> []) \<or> rmatch ?T (0, s) \<noteq> []"
    by (rule rmatch_Opt_Seq_nonempty)
  also have "\<dots> \<longleftrightarrow> (\<exists>p t. s = ''@'' @ p @ ''/'' @ t \<and> grammar_part p \<and> grammar_part t) \<or> grammar_part s"
    (is "?A \<or> ?B \<longleftrightarrow> ?C \<or> ?D")
  proof -
    have "?A \<longleftrightarrow> ?C"
    proof
      assume ?A
      then obtain st' where a: "st' \<in> set (rmatch ?S (0, s))" "rmatch ?T st' \<noteq> []" by blast
      from a(1) obtain p t where pt: "s = ''@'' @ p @ ''/'' @ t" "grammar_part p"
          "st' = (Suc (Suc (length p)), t)"
        unfolding rmatch_scope_iff by blast
      from a(2) have "grammar_part t" unfolding pt(3) rmatch_part_Eol .
      with pt show ?C by blast
    next
      assume ?C
      then obtain p t where pt: "s = ''@'' @ p @ ''/'' @ t" "grammar_part p" "grammar_part t"
        by blast
      then have "(Suc (Suc (length p)), t) \<in> set (rmatch ?S (0, s))"
        unfolding rmatch_scope_iff by blast
      moreover have "rmatch ?T (Suc (Suc (length p)), t) \<noteq> []"
        unfolding rmatch_part_Eol by (rule pt(3))
      ultimately show ?A by blast
    qed
    moreover have "?B \<longleftrightarrow> ?D" by (rule rmatch_part_Eol)
    ultimately show ?thesis by (simp only:)
  qed
  also have "\<dots> \<longleftrightarrow> matches_grammar s"
    unfolding matches_grammar_def by blast
  finally show ?thesis .
qed

section \<open>Accepted names and the manifest\<close>

lemma grammar_first_rest: "grammar_first c \<Longrightarrow> grammar_rest c"
  by (auto simp: grammar_first_def grammar_rest_def)

lemma grammar_part_chars: "grammar_part p \<Longrightarrow> c \<in> set p \<Longrightarrow> grammar_rest c"
  by (cases p) (auto simp: grammar_part_def list_all_iff grammar_first_rest)

lemma grammar_part_nonempty: "grammar_part p \<Longrightarrow> p \<noteq> []"
  by (auto simp: grammar_part_def)

lemma accepted_chars:
  assumes "test validPackageNameRegex s" and "c \<in> set s"
  shows "grammar_rest c \<or> c = CHR ''@'' \<or> c = CHR ''/''"
  using assms unfolding accepts_iff_grammar matches_grammar_def
  by (auto dest: grammar_part_chars)

lemma accepted_nonempty: "test validPackageNameRegex s \<Longrightarrow> s \<noteq> []"
  unfolding accepts_iff_grammar matches_grammar_def by (auto dest: grammar_part_nonempty)

lemma not_first_at: "\<not> grammar_first CHR ''@''"
  by (simp add: grammar_first_def)

lemma accepted_scoped:
  assumes "test validPackageNameRegex s"
  shows "startsWith s ''@'' \<longleftrightarrow> scoped s"
proof
  assume "startsWith s ''@''"
  then obtain r where r: "s = CHR ''@'' # r"
    by (cases s) (auto simp: startsWith_def)
  then have "\<not> grammar_part s" by (simp add: grammar_part_def not_first_at)
  with assms show "scoped s"
    unfolding accepts_iff_grammar matches_grammar_def scoped_def by blast
next
  assume "scoped s"
  then show "startsWith s ''@''" by (auto simp: scoped_def startsWith_def)
qed

lemma quote_char_plain:
  "grammar_rest c \<or> c = CHR ''@'' \<or> c = CHR ''/'' \<Longrightarrow> quote_char c = [c]"
  by (auto simp: grammar_rest_def quote_char_def)

lemma quote_accepted:
  assumes "test validPackageNameRegex s"
  shows "concat (map quote_char s) = s"
proof -
  have "\<forall>c \<in> set s. quote_char c = [c]"
    using accepted_chars[OF assms] quote_char_plain by blast
  then show ?thesis by (induction s) auto
qed

lemma manifest_text:
  assumes "test validPackageNameRegex s"
  shows \<open>JSON_stringify (packageJson s) 2 @ nl =
     unlines
      [''{'',
       ''  "name": "'' @ s @ ''",'',
       ''  "version": "0.0.1",'',
       ''  "description": "OIDC trusted publishing setup package for '' @ s @ ''",'',
       ''  "keywords": ['',
       ''    "oidc",'',
       ''    "trusted-publishing",'',
       ''    "setup"'',
       ''  ]'',
       ''}'']\<close>
  by (simp add: JSON_stringify_def packageJson_def QuoteJSONString_def quote_accepted[OF assms]
      quote_char_def unlines_def nl_def Let_def eval_nat_numeral)

section \<open>The runs of the tool\<close>

lemmas script_defs = script_def withPackageName_def tryBody_def finallyBlock_def
  missingPackageName_def whenever_def try_catch_def try_finally_def exit_def
  consoleLog_def consoleError_def consoleWarn_def mkdir_def writeFile_def rm_def
  execSync_def emit_def Let_def

lemmas invocation_defs = helpRequested_def namesPackage_def dryRun_def accessValue_def

text \<open>What \<open>namesPackage\<close> says about the result of \<open>parseArgs\<close>.\<close>

lemma namesPackage_parse:
  assumes "namesPackage argv s"
  obtains vals rest where "parseArgs options argv = Inr (vals, s # rest)"
    and "\<not> truthy (vals ''help'')" and "\<not> truthy (vals ''version'')"
proof (cases "parseArgs options argv")
  case (Inl err)
  with assms show ?thesis by (simp add: namesPackage_def)
next
  case (Inr r)
  obtain vals positionals where r: "r = (vals, positionals)" by (cases r)
  with assms Inr obtain rest where "positionals = s # rest"
    by (cases positionals) (auto simp: namesPackage_def)
  with assms Inr r that show ?thesis by (simp add: namesPackage_def)
qed

text \<open>
  Claim C2. The validation accepts a string if and only if it matches the naming
  grammar. A string that does not match, given as the positional package name of an
  invocation that asks neither for the help nor for the version, makes the tool print
  an error and end with status 1; the two error lines are all the run does, so the
  file system is as it was (the validation comes before the temporary directory).
  For the empty string the error is the one of a missing name.
\<close>

theorem rejected_names:
  "(test validPackageNameRegex s \<longleftrightarrow> matches_grammar s) \<and>
   (namesPackage argv s \<and> \<not> matches_grammar s \<longrightarrow>
      run e argv fs0 =
        (1, \<lparr>fs = fs0,
             trace = (if s = [] then
                        [ConsoleError ''Error: Package name is required'',
                         ConsoleError ''Usage: setup-npm-trusted-publish <package-name>'']
                      else
                        [ConsoleError (''Error: Invalid package name: '' @ s),
                         ConsoleError ''Package names must be lowercase and can contain letters, numbers, hyphens, periods, and underscores''])\<rparr>))"
proof (intro conjI impI)
  show "test validPackageNameRegex s \<longleftrightarrow> matches_grammar s" by (rule accepts_iff_grammar)
next
  assume a: "namesPackage argv s \<and> \<not> matches_grammar s"
  then have "\<not> test validPackageNameRegex s" by (simp add: accepts_iff_grammar)
  from a obtain vals rest where "parseArgs options argv = Inr (vals, s # rest)"
    and "\<not> truthy (vals ''help'')" and "\<not> truthy (vals ''version'')"
    by (blast elim: namesPackage_parse)
  with a \<open>\<not> test validPackageNameRegex s\<close> show "run e argv fs0 =
        (1, \<lparr>fs = fs0,
             trace = (if s = [] then
                        [ConsoleError ''Error: Package name is required'',
                         ConsoleError ''Usage: setup-npm-trusted-publish <package-name>'']
                      else
                        [ConsoleError (''Error: Invalid package name: '' @ s),
                         ConsoleError ''Package names must be lowercase and can contain letters, numbers, hyphens, periods, and underscores''])\<rparr>)"
    by (simp add: run_def script_defs)
qed

theorem rejected_names_witness:
  "namesPackage [''Invalid_Name!''] ''Invalid_Name!'' \<and> \<not> matches_grammar ''Invalid_Name!'' \<and>
   run quietEnv [''Invalid_Name!''] Map.empty =
     (1, \<lparr>fs = Map.empty,
          trace = [ConsoleError ''Error: Invalid package name: Invalid_Name!'',
                   ConsoleError ''Package names must be lowercase and can contain letters, numbers, hyphens, periods, and underscores'']\<rparr>)"
proof -
  have n: "namesPackage [''Invalid_Name!''] ''Invalid_Name!''" by code_simp
  have "\<not> test validPackageNameRegex ''Invalid_Name!''" by code_simp
  then have g: "\<not> matches_grammar ''Invalid_Name!''"
    using rejected_names[of "''Invalid_Name!''"] by blast
  from n g rejected_names[of "''Invalid_Name!''" "[''Invalid_Name!'']" quietEnv Map.empty]
  show ?thesis by simp
qed

section \<open>The run on every path\<close>

lemmas stmt_defs = whenever_def try_catch_def try_finally_def exit_def
  consoleLog_def consoleError_def consoleWarn_def mkdir_def writeFile_def rm_def
  execSync_def emit_def Let_def

lemma tryBody_manifest_fails:
  assumes "writeFile_error e (manifestPath e) = Some msg"
  shows "tryBody e vals s (packageDir e) w =
           (Throw msg, w\<lparr>trace := trace w @ [WriteFileCall (manifestPath e) (manifestText s)]\<rparr>)"
  using assms by (simp add: tryBody_def stmt_defs manifestPath_def manifestText_def)

lemma tryBody_readme_fails:
  assumes "writeFile_error e (manifestPath e) = None" "writeFile_error e (readmePath e) = Some msg"
  shows "tryBody e vals s (packageDir e) w =
           (Throw msg,
            w\<lparr>fs := (fs w)(manifestPath e \<mapsto> File (manifestText s)),
              trace := trace w @ [WriteFileCall (manifestPath e) (manifestText s),
                                  WriteFileCall (readmePath e) (readmeContent s)]\<rparr>)"
  using assms by (simp add: tryBody_def stmt_defs manifestPath_def manifestText_def readmePath_def)

lemma tryBody_dry:
  assumes "writeFile_error e (manifestPath e) = None" "writeFile_error e (readmePath e) = None"
    and "truthy (vals ''dry-run'')"
  shows "tryBody e vals s (packageDir e) w =
           (Normal,
            w\<lparr>fs := (fs w)(manifestPath e \<mapsto> File (manifestText s),
                             readmePath e \<mapsto> File (readmeContent s)),
              trace := trace w @
                 [WriteFileCall (manifestPath e) (manifestText s),
                  WriteFileCall (readmePath e) (readmeContent s),
                  ConsoleLog (emoji_check @ '' Created placeholder package files'')]
                 @ dryRunEvents e s (vals ''access'')\<rparr>)"
  using assms
  by (simp add: tryBody_def stmt_defs manifestPath_def manifestText_def readmePath_def dryRunEvents_def)

lemma tryBody_publish_fails:
  assumes "writeFile_error e (manifestPath e) = None" "writeFile_error e (readmePath e) = None"
    and "\<not> truthy (vals ''dry-run'')"
    and "execSync_error e (publishCmd s (vals ''access'')) (packageDir e) = Some msg"
  shows "tryBody e vals s (packageDir e) w =
           (Exit 1,
            w\<lparr>fs := (fs w)(manifestPath e \<mapsto> File (manifestText s),
                             readmePath e \<mapsto> File (readmeContent s)),
              trace := trace w @
                 [WriteFileCall (manifestPath e) (manifestText s),
                  WriteFileCall (readmePath e) (readmeContent s),
                  ConsoleLog (emoji_check @ '' Created placeholder package files'')]
                 @ publishEvents e s (vals ''access'') @ failureEvents e s (vals ''access'') msg\<rparr>)"
  using assms
  by (simp add: tryBody_def stmt_defs manifestPath_def manifestText_def readmePath_def
      publishEvents_def failureEvents_def)

lemma tryBody_publish_ok:
  assumes "writeFile_error e (manifestPath e) = None" "writeFile_error e (readmePath e) = None"
    and "\<not> truthy (vals ''dry-run'')"
    and "execSync_error e (publishCmd s (vals ''access'')) (packageDir e) = None"
  shows "tryBody e vals s (packageDir e) w =
           (Normal,
            w\<lparr>fs := (fs w)(manifestPath e \<mapsto> File (manifestText s),
                             readmePath e \<mapsto> File (readmeContent s)),
              trace := trace w @
                 [WriteFileCall (manifestPath e) (manifestText s),
                  WriteFileCall (readmePath e) (readmeContent s),
                  ConsoleLog (emoji_check @ '' Created placeholder package files'')]
                 @ publishEvents e s (vals ''access'') @ successEvents s\<rparr>)"
  using assms
  by (simp add: tryBody_def stmt_defs manifestPath_def manifestText_def readmePath_def
      publishEvents_def successEvents_def)

lemma finallyBlock_dry:
  "truthy (vals ''dry-run'') \<Longrightarrow> finallyBlock e vals (packageDir e) w = (Normal, w)"
  by (simp add: finallyBlock_def stmt_defs)

lemma finallyBlock_removes:
  assumes "\<not> truthy (vals ''dry-run'')" "rm_error e (packageDir e) = None"
  shows "finallyBlock e vals (packageDir e) w =
           (Normal, w\<lparr>fs := removed e (fs w), trace := trace w @ cleanedEvents e\<rparr>)"
  using assms by (simp add: finallyBlock_def stmt_defs removed_def cleanedEvents_def cong: if_cong)

lemma finallyBlock_warns:
  assumes "\<not> truthy (vals ''dry-run'')" "rm_error e (packageDir e) = Some msg"
  shows "finallyBlock e vals (packageDir e) w =
           (Normal, w\<lparr>trace := trace w @ cleanupFailedEvents e msg\<rparr>)"
  using assms by (simp add: finallyBlock_def stmt_defs cleanupFailedEvents_def)


lemma accepted_parse:
  assumes "namesPackage argv s"
  obtains vals rest where "parseArgs options argv = Inr (vals, s # rest)"
    and "\<not> truthy (vals ''help'')" and "\<not> truthy (vals ''version'')"
    and "dryRun argv = truthy (vals ''dry-run'')" and "accessValue argv = vals ''access''"
proof -
  from assms obtain vals rest where p: "parseArgs options argv = Inr (vals, s # rest)"
    and "\<not> truthy (vals ''help'')" and "\<not> truthy (vals ''version'')"
    by (rule namesPackage_parse)
  moreover from p have "dryRun argv = truthy (vals ''dry-run'')" "accessValue argv = vals ''access''"
    by (simp_all add: dryRun_def accessValue_def)
  ultimately show ?thesis by (rule that)
qed

lemmas run_unfold = run_def script_def withPackageName_def block.simps stmt_defs
  accepted_nonempty

lemma run_mkdir_fails:
  assumes "namesPackage argv s" "test validPackageNameRegex s"
    and "mkdir_error e (packageDir e) = Some msg"
  shows "run e argv fs0 = (1, \<lparr>fs = fs0, trace = [MkdirCall (packageDir e), UncaughtError msg]\<rparr>)"
proof -
  from assms(1) obtain vals rest where "parseArgs options argv = Inr (vals, s # rest)"
    and "\<not> truthy (vals ''help'')" and "\<not> truthy (vals ''version'')"
    by (rule namesPackage_parse)
  with assms(2,3) show ?thesis by (simp add: run_unfold)
qed

lemma run_manifest_fails:
  assumes "namesPackage argv s" "test validPackageNameRegex s"
    and "mkdir_error e (packageDir e) = None"
    and "writeFile_error e (manifestPath e) = Some msg"
  shows "run e argv fs0 =
           (1, \<lparr>fs = fs0(packageDir e \<mapsto> Dir),
                trace = announceEvents e s @
                  [WriteFileCall (manifestPath e) (manifestText s),
                   ConsoleError (nl @ emoji_cross @ '' Error: '' @ msg)]\<rparr>)"
proof -
  from assms(1) obtain vals rest where "parseArgs options argv = Inr (vals, s # rest)"
    and "\<not> truthy (vals ''help'')" and "\<not> truthy (vals ''version'')"
    by (rule namesPackage_parse)
  with assms(2,3) show ?thesis
    by (simp add: run_unfold tryBody_manifest_fails[OF assms(4)] announceEvents_def)
qed

lemma run_readme_fails:
  assumes "namesPackage argv s" "test validPackageNameRegex s"
    and "mkdir_error e (packageDir e) = None"
    and "writeFile_error e (manifestPath e) = None"
    and "writeFile_error e (readmePath e) = Some msg"
  shows "run e argv fs0 =
           (1, \<lparr>fs = fs0(packageDir e \<mapsto> Dir, manifestPath e \<mapsto> File (manifestText s)),
                trace = announceEvents e s @
                  [WriteFileCall (manifestPath e) (manifestText s),
                   WriteFileCall (readmePath e) (readmeContent s),
                   ConsoleError (nl @ emoji_cross @ '' Error: '' @ msg)]\<rparr>)"
proof -
  from assms(1) obtain vals rest where "parseArgs options argv = Inr (vals, s # rest)"
    and "\<not> truthy (vals ''help'')" and "\<not> truthy (vals ''version'')"
    by (rule namesPackage_parse)
  with assms(2,3) show ?thesis
    by (simp add: run_unfold tryBody_readme_fails[OF assms(4,5)] announceEvents_def)
qed

lemma run_dry:
  assumes "namesPackage argv s" "test validPackageNameRegex s" "dryRun argv"
    and "mkdir_error e (packageDir e) = None"
    and "writeFile_error e (manifestPath e) = None"
    and "writeFile_error e (readmePath e) = None"
  shows "run e argv fs0 =
           (0, \<lparr>fs = generatedFiles e s fs0,
                trace = generationEvents e s @ dryRunEvents e s (accessValue argv)\<rparr>)"
proof -
  from assms(1) obtain vals rest where "parseArgs options argv = Inr (vals, s # rest)"
    and "\<not> truthy (vals ''help'')" and "\<not> truthy (vals ''version'')"
    and d: "dryRun argv = truthy (vals ''dry-run'')" and a: "accessValue argv = vals ''access''"
    by (rule accepted_parse)
  with assms(2,4) show ?thesis
    using assms(3)
    by (simp add: run_unfold tryBody_dry[OF assms(5,6)] finallyBlock_dry
        generatedFiles_def generationEvents_def announceEvents_def)
qed

lemma run_publish_fails:
  assumes "namesPackage argv s" "test validPackageNameRegex s" "\<not> dryRun argv"
    and "mkdir_error e (packageDir e) = None"
    and "writeFile_error e (manifestPath e) = None"
    and "writeFile_error e (readmePath e) = None"
    and "execSync_error e (publishCmd s (accessValue argv)) (packageDir e) = Some msg"
  shows "run e argv fs0 =
           (1, \<lparr>fs = generatedFiles e s fs0,
                trace = generationEvents e s @ publishEvents e s (accessValue argv)
                          @ failureEvents e s (accessValue argv) msg\<rparr>)"
proof -
  from assms(1) obtain vals rest where p: "parseArgs options argv = Inr (vals, s # rest)"
    and h: "\<not> truthy (vals ''help'')" "\<not> truthy (vals ''version'')"
    and d: "dryRun argv = truthy (vals ''dry-run'')" and a: "accessValue argv = vals ''access''"
    by (rule accepted_parse)
  from assms(3) d have nd: "\<not> truthy (vals ''dry-run'')" by simp
  from assms(7) a have x: "execSync_error e (publishCmd s (vals ''access'')) (packageDir e) = Some msg"
    by simp
  from p h assms(2,4) show ?thesis
    by (simp add: run_unfold tryBody_publish_fails[OF assms(5,6) nd x] a
        generatedFiles_def generationEvents_def announceEvents_def)
qed

lemma run_published_cleaned:
  assumes "namesPackage argv s" "test validPackageNameRegex s" "\<not> dryRun argv"
    and "mkdir_error e (packageDir e) = None"
    and "writeFile_error e (manifestPath e) = None"
    and "writeFile_error e (readmePath e) = None"
    and "execSync_error e (publishCmd s (accessValue argv)) (packageDir e) = None"
    and "rm_error e (packageDir e) = None"
  shows "run e argv fs0 =
           (0, \<lparr>fs = removed e (generatedFiles e s fs0),
                trace = generationEvents e s @ publishEvents e s (accessValue argv)
                          @ successEvents s @ cleanedEvents e\<rparr>)"
proof -
  from assms(1) obtain vals rest where p: "parseArgs options argv = Inr (vals, s # rest)"
    and h: "\<not> truthy (vals ''help'')" "\<not> truthy (vals ''version'')"
    and d: "dryRun argv = truthy (vals ''dry-run'')" and a: "accessValue argv = vals ''access''"
    by (rule accepted_parse)
  from assms(3) d have nd: "\<not> truthy (vals ''dry-run'')" by simp
  from assms(7) a have x: "execSync_error e (publishCmd s (vals ''access'')) (packageDir e) = None"
    by simp
  from p h assms(2,4) show ?thesis
    by (simp add: run_unfold tryBody_publish_ok[OF assms(5,6) nd x] a
        finallyBlock_removes[where e=e and vals=vals, OF nd assms(8)]
        generatedFiles_def generationEvents_def announceEvents_def)
qed

lemma run_published_warned:
  assumes "namesPackage argv s" "test validPackageNameRegex s" "\<not> dryRun argv"
    and "mkdir_error e (packageDir e) = None"
    and "writeFile_error e (manifestPath e) = None"
    and "writeFile_error e (readmePath e) = None"
    and "execSync_error e (publishCmd s (accessValue argv)) (packageDir e) = None"
    and "rm_error e (packageDir e) = Some msg"
  shows "run e argv fs0 =
           (0, \<lparr>fs = generatedFiles e s fs0,
                trace = generationEvents e s @ publishEvents e s (accessValue argv)
                          @ successEvents s @ cleanupFailedEvents e msg\<rparr>)"
proof -
  from assms(1) obtain vals rest where p: "parseArgs options argv = Inr (vals, s # rest)"
    and h: "\<not> truthy (vals ''help'')" "\<not> truthy (vals ''version'')"
    and d: "dryRun argv = truthy (vals ''dry-run'')" and a: "accessValue argv = vals ''access''"
    by (rule accepted_parse)
  from assms(3) d have nd: "\<not> truthy (vals ''dry-run'')" by simp
  from assms(7) a have x: "execSync_error e (publishCmd s (vals ''access'')) (packageDir e) = None"
    by simp
  from p h assms(2,4) show ?thesis
    by (simp add: run_unfold tryBody_publish_ok[OF assms(5,6) nd x] a
        finallyBlock_warns[where e=e and vals=vals, OF nd assms(8)]
        generatedFiles_def generationEvents_def announceEvents_def)
qed

lemma namesPackage_unique:
  assumes "namesPackage argv s" "namesPackage argv s'"
  shows "s = s'"
proof -
  from assms(1) obtain vals rest where "parseArgs options argv = Inr (vals, s # rest)"
    by (rule namesPackage_parse)
  moreover from assms(2) obtain vals' rest' where "parseArgs options argv = Inr (vals', s' # rest')"
    by (rule namesPackage_parse)
  ultimately show ?thesis by simp
qed

lemma namesPackage_not_help: "namesPackage argv s \<Longrightarrow> \<not> helpRequested argv"
  by (auto simp: namesPackage_def helpRequested_def split: sum.splits)

lemma run_rejected:
  assumes "namesPackage argv s" "s \<noteq> []" "\<not> test validPackageNameRegex s"
  shows "run e argv fs0 =
     (1, \<lparr>fs = fs0,
          trace = [ConsoleError (''Error: Invalid package name: '' @ s),
                   ConsoleError ''Package names must be lowercase and can contain letters, numbers, hyphens, periods, and underscores'']\<rparr>)"
proof -
  from assms(1) obtain vals rest where "parseArgs options argv = Inr (vals, s # rest)"
    and "\<not> truthy (vals ''help'')" and "\<not> truthy (vals ''version'')"
    by (rule namesPackage_parse)
  with assms(2,3) show ?thesis by (simp add: run_def script_def withPackageName_def stmt_defs)
qed

text \<open>Every run takes one of twelve paths.\<close>

lemma run_cases:
  obtains
    (parse_failed) err where "parseArgs options argv = Inl err"
      "run e argv fs0 = (1, \<lparr>fs = fs0, trace = [UncaughtParseArgsError err]\<rparr>)"
  | (help_shown) vals positionals where "parseArgs options argv = Inr (vals, positionals)"
      "helpRequested argv" "run e argv fs0 = (0, \<lparr>fs = fs0, trace = [ConsoleLog usage]\<rparr>)"
  | (version_shown) vals positionals where "parseArgs options argv = Inr (vals, positionals)"
      "\<not> helpRequested argv" "truthy (vals ''version'')" "\<forall>s. \<not> namesPackage argv s"
      "run e argv fs0 = (0, \<lparr>fs = fs0, trace = [ConsoleLog (pkg_version e)]\<rparr>)"
  | (name_missing) vals positionals where "parseArgs options argv = Inr (vals, positionals)"
      "\<not> helpRequested argv" "\<not> truthy (vals ''version'')"
      "positionals = [] \<or> (\<exists>rest. positionals = [] # rest)"
      "run e argv fs0 =
         (1, \<lparr>fs = fs0,
              trace = [ConsoleError ''Error: Package name is required'',
                       ConsoleError ''Usage: setup-npm-trusted-publish <package-name>'']\<rparr>)"
  | (rejected) s vals rest where "parseArgs options argv = Inr (vals, s # rest)"
      "namesPackage argv s" "s \<noteq> []" "\<not> test validPackageNameRegex s"
      "run e argv fs0 =
         (1, \<lparr>fs = fs0,
              trace = [ConsoleError (''Error: Invalid package name: '' @ s),
                       ConsoleError ''Package names must be lowercase and can contain letters, numbers, hyphens, periods, and underscores'']\<rparr>)"
  | (mkdir_fails) s msg vals rest where "parseArgs options argv = Inr (vals, s # rest)"
      "namesPackage argv s" "test validPackageNameRegex s"
      "mkdir_error e (packageDir e) = Some msg"
      "run e argv fs0 = (1, \<lparr>fs = fs0, trace = [MkdirCall (packageDir e), UncaughtError msg]\<rparr>)"
  | (manifest_fails) s msg vals rest where "parseArgs options argv = Inr (vals, s # rest)"
      "namesPackage argv s" "test validPackageNameRegex s"
      "mkdir_error e (packageDir e) = None"
      "writeFile_error e (manifestPath e) = Some msg"
      "run e argv fs0 =
           (1, \<lparr>fs = fs0(packageDir e \<mapsto> Dir),
                trace = announceEvents e s @
                  [WriteFileCall (manifestPath e) (manifestText s),
                   ConsoleError (nl @ emoji_cross @ '' Error: '' @ msg)]\<rparr>)"
  | (readme_fails) s msg vals rest where "parseArgs options argv = Inr (vals, s # rest)"
      "namesPackage argv s" "test validPackageNameRegex s"
      "mkdir_error e (packageDir e) = None"
      "writeFile_error e (manifestPath e) = None"
      "writeFile_error e (readmePath e) = Some msg"
      "run e argv fs0 =
           (1, \<lparr>fs = fs0(packageDir e \<mapsto> Dir, manifestPath e \<mapsto> File (manifestText s)),
                trace = announceEvents e s @
                  [WriteFileCall (manifestPath e) (manifestText s),
                   WriteFileCall (readmePath e) (readmeContent s),
                   ConsoleError (nl @ emoji_cross @ '' Error: '' @ msg)]\<rparr>)"
  | (dry) s vals rest where "parseArgs options argv = Inr (vals, s # rest)"
      "namesPackage argv s" "test validPackageNameRegex s" "dryRun argv"
      "mkdir_error e (packageDir e) = None"
      "writeFile_error e (manifestPath e) = None"
      "writeFile_error e (readmePath e) = None"
      "run e argv fs0 =
           (0, \<lparr>fs = generatedFiles e s fs0,
                trace = generationEvents e s @ dryRunEvents e s (accessValue argv)\<rparr>)"
  | (publish_fails) s msg vals rest where "parseArgs options argv = Inr (vals, s # rest)"
      "namesPackage argv s" "test validPackageNameRegex s" "\<not> dryRun argv"
      "mkdir_error e (packageDir e) = None"
      "writeFile_error e (manifestPath e) = None"
      "writeFile_error e (readmePath e) = None"
      "execSync_error e (publishCmd s (accessValue argv)) (packageDir e) = Some msg"
      "run e argv fs0 =
           (1, \<lparr>fs = generatedFiles e s fs0,
                trace = generationEvents e s @ publishEvents e s (accessValue argv)
                          @ failureEvents e s (accessValue argv) msg\<rparr>)"
  | (cleaned) s vals rest where "parseArgs options argv = Inr (vals, s # rest)"
      "namesPackage argv s" "test validPackageNameRegex s" "\<not> dryRun argv"
      "mkdir_error e (packageDir e) = None"
      "writeFile_error e (manifestPath e) = None"
      "writeFile_error e (readmePath e) = None"
      "execSync_error e (publishCmd s (accessValue argv)) (packageDir e) = None"
      "rm_error e (packageDir e) = None"
      "run e argv fs0 =
           (0, \<lparr>fs = removed e (generatedFiles e s fs0),
                trace = generationEvents e s @ publishEvents e s (accessValue argv)
                          @ successEvents s @ cleanedEvents e\<rparr>)"
  | (warned) s msg vals rest where "parseArgs options argv = Inr (vals, s # rest)"
      "namesPackage argv s" "test validPackageNameRegex s" "\<not> dryRun argv"
      "mkdir_error e (packageDir e) = None"
      "writeFile_error e (manifestPath e) = None"
      "writeFile_error e (readmePath e) = None"
      "execSync_error e (publishCmd s (accessValue argv)) (packageDir e) = None"
      "rm_error e (packageDir e) = Some msg"
      "run e argv fs0 =
           (0, \<lparr>fs = generatedFiles e s fs0,
                trace = generationEvents e s @ publishEvents e s (accessValue argv)
                          @ successEvents s @ cleanupFailedEvents e msg\<rparr>)"
proof (cases "parseArgs options argv")
  case (Inl err)
  then have "run e argv fs0 = (1, \<lparr>fs = fs0, trace = [UncaughtParseArgsError err]\<rparr>)"
    by (simp add: run_def)
  with Inl show ?thesis by (rule that(1))
next
  case (Inr r)
  obtain vals positionals where r: "r = (vals, positionals)" by (cases r)
  with Inr have parse: "parseArgs options argv = Inr (vals, positionals)" by simp
  show ?thesis
  proof (cases "truthy (vals ''help'')")
    case True
    with parse have h: "helpRequested argv" by (simp add: helpRequested_def)
    then have "run e argv fs0 = (0, \<lparr>fs = fs0, trace = [ConsoleLog usage]\<rparr>)"
      using parse True by (simp add: run_def script_def stmt_defs)
    with parse h show ?thesis by (intro that(2))
  next
    case nohelp: False
    with parse have nh: "\<not> helpRequested argv" by (simp add: helpRequested_def)
    show ?thesis
    proof (cases "truthy (vals ''version'')")
      case True
      with parse have "\<forall>s. \<not> namesPackage argv s" by (simp add: namesPackage_def)
      moreover have "run e argv fs0 = (0, \<lparr>fs = fs0, trace = [ConsoleLog (pkg_version e)]\<rparr>)"
        using parse nohelp True by (simp add: run_def script_def stmt_defs)
      ultimately show ?thesis using nh parse True by (intro that(3))
    next
      case noversion: False
      have missing: "run e argv fs0 =
         (1, \<lparr>fs = fs0,
              trace = [ConsoleError ''Error: Package name is required'',
                       ConsoleError ''Usage: setup-npm-trusted-publish <package-name>'']\<rparr>)"
        if "positionals = [] \<or> (\<exists>rest. positionals = [] # rest)"
        using that parse nohelp noversion
        by (auto simp: run_def script_def missingPackageName_def stmt_defs)
      show ?thesis
      proof (cases positionals)
        case Nil
        with missing nh parse noversion show ?thesis by (intro that(4)) auto
      next
        case (Cons s rest)
        with parse nohelp noversion have names: "namesPackage argv s"
          by (simp add: namesPackage_def)
        from parse Cons have parse': "parseArgs options argv = Inr (vals, s # rest)" by simp
        show ?thesis
        proof (cases "s = []")
          case True
          with Cons missing nh parse noversion show ?thesis by (intro that(4)) auto
        next
          case nonempty: False
          show ?thesis
          proof (cases "test validPackageNameRegex s")
            case False
            with names nonempty show ?thesis
              by (intro that(5)[of vals s rest] parse' run_rejected)
          next
            case accepted: True
            show ?thesis
            proof (cases "mkdir_error e (packageDir e)")
              case (Some msg)
              with names accepted show ?thesis
                by (intro that(6)[of vals s rest msg] parse' run_mkdir_fails)
            next
              case mk: None
              show ?thesis
              proof (cases "writeFile_error e (manifestPath e)")
                case (Some msg)
                with names accepted mk show ?thesis
                  by (intro that(7)[of vals s rest msg] parse' run_manifest_fails)
              next
                case w1: None
                show ?thesis
                proof (cases "writeFile_error e (readmePath e)")
                  case (Some msg)
                  with names accepted mk w1 show ?thesis
                    by (intro that(8)[of vals s rest msg] parse' run_readme_fails)
                next
                  case w2: None
                  show ?thesis
                  proof (cases "dryRun argv")
                    case True
                    with names accepted mk w1 w2 show ?thesis
                      by (intro that(9)[of vals s rest] parse' run_dry)
                  next
                    case nodry: False
                    show ?thesis
                    proof (cases "execSync_error e (publishCmd s (accessValue argv)) (packageDir e)")
                      case (Some msg)
                      with names accepted mk w1 w2 nodry show ?thesis
                        by (intro that(10)[of vals s rest msg] parse' run_publish_fails)
                    next
                      case x: None
                      show ?thesis
                      proof (cases "rm_error e (packageDir e)")
                        case None
                        with names accepted mk w1 w2 nodry x show ?thesis
                          by (intro that(11)[of vals s rest] parse' run_published_cleaned)
                      next
                        case (Some msg)
                        with names accepted mk w1 w2 nodry x show ?thesis
                          by (intro that(12)[of vals s rest msg] parse' run_published_warned)
                      qed
                    qed
                  qed
                qed
              qed
            qed
          qed
        qed
      qed
    qed
  qed
qed

text \<open>The status of a run does not depend on what the removal does.\<close>

lemma run_status:
  "fst (run e argv fs0) =
     (case parseArgs options argv of
        Inl err \<Rightarrow> 1
      | Inr (vals, positionals) \<Rightarrow>
          if truthy (vals ''help'') \<or> truthy (vals ''version'') then 0
          else (case positionals of
                  [] \<Rightarrow> 1
                | s # rest \<Rightarrow>
                    if \<not> test validPackageNameRegex s then 1
                    else if mkdir_error e (packageDir e) \<noteq> None then 1
                    else if writeFile_error e (manifestPath e) \<noteq> None then 1
                    else if writeFile_error e (readmePath e) \<noteq> None then 1
                    else if truthy (vals ''dry-run'') then 0
                    else if execSync_error e (publishCmd s (vals ''access'')) (packageDir e) \<noteq> None
                      then 1
                    else 0))"
proof (cases rule: run_cases[of argv e fs0])
  case (parse_failed err)
  then show ?thesis by simp
next
  case (help_shown vals positionals)
  then show ?thesis by (simp add: helpRequested_def)
next
  case (version_shown vals positionals)
  then show ?thesis by simp
next
  case (name_missing vals positionals)
  moreover have "\<not> test validPackageNameRegex []" using accepted_nonempty by blast
  ultimately show ?thesis by (auto simp: helpRequested_def)
next
  case (rejected s vals rest)
  then show ?thesis by (simp add: invocation_defs)
next
  case (mkdir_fails s msg vals rest)
  then show ?thesis by (simp add: invocation_defs)
next
  case (manifest_fails s msg vals rest)
  then show ?thesis by (simp add: invocation_defs)
next
  case (readme_fails s msg vals rest)
  then show ?thesis by (simp add: invocation_defs)
next
  case (dry s vals rest)
  then show ?thesis by (simp add: invocation_defs)
next
  case (publish_fails s msg vals rest)
  then show ?thesis by (simp add: invocation_defs)
next
  case (cleaned s vals rest)
  then show ?thesis by (simp add: invocation_defs)
next
  case (warned s msg vals rest)
  then show ?thesis by (simp add: invocation_defs)
qed

lemmas event_defs = announceEvents_def generationEvents_def dryRunEvents_def publishEvents_def
  successEvents_def failureEvents_def cleanedEvents_def cleanupFailedEvents_def

lemma paths_distinct:
  "manifestPath e \<noteq> packageDir e" "readmePath e \<noteq> packageDir e" "manifestPath e \<noteq> readmePath e"
  "startsWith (manifestPath e) (packageDir e @ ''/'')" "startsWith (readmePath e) (packageDir e @ ''/'')"
  by (simp_all add: manifestPath_def readmePath_def join_def startsWith_def)

lemma generatedFiles_lookup:
  "generatedFiles e s fs0 (packageDir e) = Some Dir"
  "generatedFiles e s fs0 (manifestPath e) = Some (File (manifestText s))"
  "generatedFiles e s fs0 (readmePath e) = Some (File (readmeContent s))"
  using paths_distinct[of e] by (auto simp: generatedFiles_def)

section \<open>Publication and cleanup\<close>

text \<open>
  Claim C6. In every run in which the publish command is invoked and succeeds (such a
  run is not a dry run), the status is 0 and the temporary directory is removed before
  the process ends: the call that removes it is made, and when that call does not fail
  nothing is left at the directory or below it, the manifest and the notice document
  included. The name of the package does not matter, scoped or not. (A removal that
  fails leaves a warning; that case is claim C8.)
\<close>
theorem publish_success_removes_directory:
  assumes "ExecSyncCall c d \<in> set (trace (snd (run e argv fs0)))"
    and "execSync_error e c d = None"
  shows "fst (run e argv fs0) = 0 \<and> \<not> dryRun argv \<and>
         RmCall (packageDir e) \<in> set (trace (snd (run e argv fs0))) \<and>
         (rm_error e (packageDir e) = None \<longrightarrow>
            fs (snd (run e argv fs0)) (packageDir e) = None \<and>
            fs (snd (run e argv fs0)) (manifestPath e) = None \<and>
            fs (snd (run e argv fs0)) (readmePath e) = None \<and>
            (\<forall>p. startsWith p (packageDir e @ ''/'') \<longrightarrow> fs (snd (run e argv fs0)) p = None))"
proof (cases rule: run_cases[of argv e fs0])
  case (publish_fails s msg vals rest)
  with assms show ?thesis by (auto simp: event_defs)
next
  case (cleaned s vals rest)
  with assms show ?thesis using paths_distinct[of e] by (simp add: event_defs removed_def)
next
  case (warned s msg vals rest)
  with assms show ?thesis by (simp add: event_defs)
qed (use assms in \<open>simp_all add: event_defs\<close>)

text \<open>
  Claim C1, as amended. In every run in which the publish command is invoked and exits
  with a status other than zero (such a run is not a dry run), the tool prints an error
  with the message of the failure, tells where the generated files remain, prints the
  manual instructions, and ends with status 1 at once: \<open>process.exit(1)\<close> ends the
  process inside the \<open>catch\<close>, so the cleanup of the \<open>finally\<close> does not run. No
  removal is attempted and no warning is shown; the temporary directory and both
  generated files are still there when the process ends.
\<close>
theorem publish_failure_keeps_directory:
  assumes "ExecSyncCall c d \<in> set (trace (snd (run e argv fs0)))"
    and "execSync_error e c d = Some msg"
  shows "\<exists>s. namesPackage argv s \<and> \<not> dryRun argv \<and>
           fst (run e argv fs0) = 1 \<and>
           ConsoleError (''Error: '' @ msg) \<in> set (trace (snd (run e argv fs0))) \<and>
           (\<exists>pre. trace (snd (run e argv fs0)) = pre @ failureEvents e s (accessValue argv) msg) \<and>
           last (trace (snd (run e argv fs0))) = ConsoleLog (manualPublishLine s (accessValue argv)) \<and>
           filter isCleanupEvent (trace (snd (run e argv fs0))) = [] \<and>
           fs (snd (run e argv fs0)) = generatedFiles e s fs0 \<and>
           fs (snd (run e argv fs0)) (packageDir e) = Some Dir \<and>
           fs (snd (run e argv fs0)) (manifestPath e) = Some (File (manifestText s)) \<and>
           fs (snd (run e argv fs0)) (readmePath e) = Some (File (readmeContent s))"
proof (cases rule: run_cases[of argv e fs0])
  case (publish_fails s msg' vals rest)
  with assms have "msg' = msg" by (auto simp: event_defs)
  with publish_fails have
    "namesPackage argv s \<and> \<not> dryRun argv \<and>
           fst (run e argv fs0) = 1 \<and>
           ConsoleError (''Error: '' @ msg) \<in> set (trace (snd (run e argv fs0))) \<and>
           (\<exists>pre. trace (snd (run e argv fs0)) = pre @ failureEvents e s (accessValue argv) msg) \<and>
           last (trace (snd (run e argv fs0))) = ConsoleLog (manualPublishLine s (accessValue argv)) \<and>
           filter isCleanupEvent (trace (snd (run e argv fs0))) = [] \<and>
           fs (snd (run e argv fs0)) = generatedFiles e s fs0 \<and>
           fs (snd (run e argv fs0)) (packageDir e) = Some Dir \<and>
           fs (snd (run e argv fs0)) (manifestPath e) = Some (File (manifestText s)) \<and>
           fs (snd (run e argv fs0)) (readmePath e) = Some (File (readmeContent s))"
    by (simp add: generatedFiles_lookup) (simp add: event_defs)
  then show ?thesis ..
next
  case (cleaned s vals rest)
  with assms show ?thesis by (auto simp: event_defs)
next
  case (warned s msg vals rest)
  with assms show ?thesis by (auto simp: event_defs)
qed (use assms in \<open>simp_all add: event_defs\<close>)

lemma quietEnv_oracles:
  "mkdir_error quietEnv p = None" "writeFile_error quietEnv p = None"
  "execSync_error quietEnv c d = None" "rm_error quietEnv p = None"
  by (simp_all add: quietEnv_def)

lemma publishFailsEnv_oracles:
  "mkdir_error publishFailsEnv p = None" "writeFile_error publishFailsEnv p = None"
  "execSync_error publishFailsEnv c d = Some (''Command failed: '' @ c)"
  "rm_error publishFailsEnv p = None"
  by (simp_all add: publishFailsEnv_def quietEnv_def)

lemma rmFailsEnv_oracles:
  "mkdir_error rmFailsEnv p = None" "writeFile_error rmFailsEnv p = None"
  "execSync_error rmFailsEnv c d = None"
  "rm_error rmFailsEnv p = Some ''EBUSY: resource busy or locked''"
  by (simp_all add: rmFailsEnv_def quietEnv_def)

lemma example_unscoped:
  "namesPackage [''my-package''] ''my-package''" "test validPackageNameRegex ''my-package''"
  "\<not> dryRun [''my-package'']" "accessValue [''my-package''] = JStr ''public''"
  "publishCmd ''my-package'' (JStr ''public'') = ''npm publish''"
  by code_simp+

lemma example_failed_run:
  "run publishFailsEnv [''my-package''] Map.empty =
     (1, \<lparr>fs = generatedFiles publishFailsEnv ''my-package'' Map.empty,
          trace = generationEvents publishFailsEnv ''my-package''
                    @ publishEvents publishFailsEnv ''my-package'' (JStr ''public'')
                    @ failureEvents publishFailsEnv ''my-package'' (JStr ''public'')
                        ''Command failed: npm publish''\<rparr>)"
  using run_publish_fails[of "[''my-package'']" "''my-package''" publishFailsEnv
      "''Command failed: npm publish''" Map.empty]
  by (simp add: example_unscoped publishFailsEnv_oracles)

theorem publish_failure_skips_cleanup:
  "fst (run publishFailsEnv [''my-package''] Map.empty) = 1 \<and>
   ExecSyncCall ''npm publish'' (packageDir publishFailsEnv)
     \<in> set (trace (snd (run publishFailsEnv [''my-package''] Map.empty))) \<and>
   execSync_error publishFailsEnv ''npm publish'' (packageDir publishFailsEnv)
     = Some ''Command failed: npm publish'' \<and>
   filter isCleanupEvent (trace (snd (run publishFailsEnv [''my-package''] Map.empty))) = [] \<and>
   fs (snd (run publishFailsEnv [''my-package''] Map.empty)) (packageDir publishFailsEnv) = Some Dir"
  by (simp add: example_failed_run generatedFiles_lookup publishFailsEnv_oracles)
     (simp add: event_defs example_unscoped)

theorem publish_failure_keeps_directory_witness:
  "ExecSyncCall ''npm publish'' (packageDir publishFailsEnv)
     \<in> set (trace (snd (run publishFailsEnv [''my-package''] Map.empty))) \<and>
   execSync_error publishFailsEnv ''npm publish'' (packageDir publishFailsEnv)
     = Some ''Command failed: npm publish'' \<and>
   (\<exists>s. namesPackage [''my-package''] s \<and>
        fst (run publishFailsEnv [''my-package''] Map.empty) = 1 \<and>
        fs (snd (run publishFailsEnv [''my-package''] Map.empty)) (packageDir publishFailsEnv) = Some Dir)"
proof -
  have x: "ExecSyncCall ''npm publish'' (packageDir publishFailsEnv)
     \<in> set (trace (snd (run publishFailsEnv [''my-package''] Map.empty)))"
    by (simp add: example_failed_run) (simp add: event_defs example_unscoped)
  have f: "execSync_error publishFailsEnv ''npm publish'' (packageDir publishFailsEnv)
     = Some ''Command failed: npm publish''"
    by (simp add: publishFailsEnv_oracles)
  from publish_failure_keeps_directory[OF x f] x f show ?thesis by blast
qed

lemma example_scoped:
  "namesPackage [''@myorg/my-package'', ''--dry-run'', ''--access=restricted''] ''@myorg/my-package''"
  "test validPackageNameRegex ''@myorg/my-package''"
  "dryRun [''@myorg/my-package'', ''--dry-run'', ''--access=restricted'']"
  "accessValue [''@myorg/my-package'', ''--dry-run'', ''--access=restricted''] = JStr ''restricted''"
  by code_simp+

lemma scoped_example: "scoped ''@myorg/my-package''"
  using accepted_scoped[OF example_scoped(2)] by (simp add: startsWith_def)

lemma not_scoped_example: "\<not> scoped ''my-package''"
  using accepted_scoped[OF example_unscoped(2)] by (simp add: startsWith_def)

section \<open>The generated files\<close>

text \<open>
  Claim C3. For every accepted package name, once the temporary directory is made, the
  manifest written to \<open>package.json\<close> is the pretty-printed object below, with a
  newline at the end: the name is the input, character by character, the version is
  \<open>0.0.1\<close>, the description holds the name, and the keywords are \<open>oidc\<close>,
  \<open>trusted-publishing\<close> and \<open>setup\<close>.
\<close>
theorem manifest_written:
  assumes "namesPackage argv s" and "test validPackageNameRegex s"
    and "mkdir_error e (packageDir e) = None"
  shows \<open>WriteFileCall (join (packageDir e) ''package.json'')
            (unlines
              [''{'',
               ''  "name": "'' @ s @ ''",'',
               ''  "version": "0.0.1",'',
               ''  "description": "OIDC trusted publishing setup package for '' @ s @ ''",'',
               ''  "keywords": ['',
               ''    "oidc",'',
               ''    "trusted-publishing",'',
               ''    "setup"'',
               ''  ]'',
               ''}''])
          \<in> set (trace (snd (run e argv fs0)))\<close>
proof -
  have w: "WriteFileCall (manifestPath e) (manifestText s) \<in> set (trace (snd (run e argv fs0)))"
  proof (cases rule: run_cases[of argv e fs0])
    case (parse_failed err)
    with assms(1) show ?thesis by (simp add: namesPackage_def)
  next
    case (help_shown vals positionals)
    with assms(1) show ?thesis by (simp add: namesPackage_not_help)
  next
    case (version_shown vals positionals)
    with assms(1) show ?thesis by simp
  next
    case (name_missing vals positionals)
    with assms(1,2) show ?thesis by (auto simp: namesPackage_def dest: accepted_nonempty)
  next
    case (rejected s' vals rest)
    with assms(1,2) show ?thesis by (auto dest: namesPackage_unique)
  next
    case (mkdir_fails s' msg vals rest)
    with assms(3) show ?thesis by simp
  next
    case (manifest_fails s' msg vals rest)
    with assms(1) namesPackage_unique[of argv s s'] show ?thesis by (simp add: event_defs)
  next
    case (readme_fails s' msg vals rest)
    with assms(1) namesPackage_unique[of argv s s'] show ?thesis by (simp add: event_defs)
  next
    case (dry s' vals rest)
    with assms(1) namesPackage_unique[of argv s s'] show ?thesis by (simp add: event_defs)
  next
    case (publish_fails s' msg vals rest)
    with assms(1) namesPackage_unique[of argv s s'] show ?thesis by (simp add: event_defs)
  next
    case (cleaned s' vals rest)
    with assms(1) namesPackage_unique[of argv s s'] show ?thesis by (simp add: event_defs)
  next
    case (warned s' msg vals rest)
    with assms(1) namesPackage_unique[of argv s s'] show ?thesis by (simp add: event_defs)
  qed
  then show ?thesis
    unfolding manifestPath_def manifestText_def manifest_text[OF assms(2)] .
qed

theorem manifest_written_witness:
  \<open>namesPackage [''my-package''] ''my-package'' \<and> test validPackageNameRegex ''my-package'' \<and>
   mkdir_error quietEnv (packageDir quietEnv) = None \<and>
   WriteFileCall (join (packageDir quietEnv) ''package.json'')
            (unlines
              [''{'',
               ''  "name": "my-package",'',
               ''  "version": "0.0.1",'',
               ''  "description": "OIDC trusted publishing setup package for my-package",'',
               ''  "keywords": ['',
               ''    "oidc",'',
               ''    "trusted-publishing",'',
               ''    "setup"'',
               ''  ]'',
               ''}''])
          \<in> set (trace (snd (run quietEnv [''my-package''] Map.empty)))\<close>
  using manifest_written[OF example_unscoped(1,2) quietEnv_oracles(1), of Map.empty]
  by (simp add: example_unscoped quietEnv_oracles)

text \<open>
  Claim C4. For every accepted package name (the directory made and both files
  written): in a dry run the last line printed is the publish command with
  \<open>--access\<close> and the level if and only if the name is scoped; in any other run the
  publish command that is invoked has \<open>--access\<close> and the level if and only if the
  name is scoped, and no other command is invoked.
\<close>
theorem access_argument_iff_scoped:
  assumes "namesPackage argv s" and "test validPackageNameRegex s"
    and "mkdir_error e (packageDir e) = None"
    and "writeFile_error e (manifestPath e) = None"
    and "writeFile_error e (readmePath e) = None"
  shows "(dryRun argv \<longrightarrow>
            last (trace (snd (run e argv fs0))) =
              ConsoleLog (''  npm publish'' @
                (if scoped s then '' --access '' @ ToString (accessValue argv) else []))) \<and>
         (\<not> dryRun argv \<longrightarrow>
            (\<forall>c d. ExecSyncCall c d \<in> set (trace (snd (run e argv fs0))) \<longleftrightarrow>
               c = (if scoped s then ''npm publish --access '' @ ToString (accessValue argv)
                    else ''npm publish'') \<and>
               d = packageDir e))"
proof -
  note sc = accepted_scoped[OF assms(2)]
  show ?thesis
  proof (cases "dryRun argv")
    case True
    with assms have "run e argv fs0 =
           (0, \<lparr>fs = generatedFiles e s fs0,
                trace = generationEvents e s @ dryRunEvents e s (accessValue argv)\<rparr>)"
      by (intro run_dry)
    with True show ?thesis by (simp add: event_defs manualPublishLine_def sc)
  next
    case False
    show ?thesis
    proof (cases "execSync_error e (publishCmd s (accessValue argv)) (packageDir e)")
      case (Some msg)
      with assms False have "run e argv fs0 =
           (1, \<lparr>fs = generatedFiles e s fs0,
                trace = generationEvents e s @ publishEvents e s (accessValue argv)
                          @ failureEvents e s (accessValue argv) msg\<rparr>)"
        by (intro run_publish_fails)
      with False show ?thesis by (auto simp: event_defs publishCmd_def sc)
    next
      case None
      show ?thesis
      proof (cases "rm_error e (packageDir e)")
        case rm: None
        with assms False None have "run e argv fs0 =
           (0, \<lparr>fs = removed e (generatedFiles e s fs0),
                trace = generationEvents e s @ publishEvents e s (accessValue argv)
                          @ successEvents s @ cleanedEvents e\<rparr>)"
          by (intro run_published_cleaned)
        with False show ?thesis by (auto simp: event_defs publishCmd_def sc)
      next
        case (Some msg)
        with assms False None have "run e argv fs0 =
           (0, \<lparr>fs = generatedFiles e s fs0,
                trace = generationEvents e s @ publishEvents e s (accessValue argv)
                          @ successEvents s @ cleanupFailedEvents e msg\<rparr>)"
          by (intro run_published_warned)
        with False show ?thesis by (auto simp: event_defs publishCmd_def sc)
      qed
    qed
  qed
qed

theorem access_argument_iff_scoped_witness:
  "namesPackage [''@myorg/my-package'', ''--dry-run'', ''--access=restricted''] ''@myorg/my-package'' \<and>
   test validPackageNameRegex ''@myorg/my-package'' \<and>
   dryRun [''@myorg/my-package'', ''--dry-run'', ''--access=restricted''] \<and>
   last (trace (snd (run quietEnv [''@myorg/my-package'', ''--dry-run'', ''--access=restricted''] Map.empty)))
     = ConsoleLog ''  npm publish --access restricted'' \<and>
   namesPackage [''my-package''] ''my-package'' \<and> test validPackageNameRegex ''my-package'' \<and>
   \<not> dryRun [''my-package''] \<and>
   ExecSyncCall ''npm publish'' (packageDir quietEnv)
     \<in> set (trace (snd (run quietEnv [''my-package''] Map.empty)))"
  using access_argument_iff_scoped[OF example_scoped(1,2) quietEnv_oracles(1,2,2), of Map.empty]
    access_argument_iff_scoped[OF example_unscoped(1,2) quietEnv_oracles(1,2,2), of Map.empty]
  by (simp add: example_scoped example_unscoped scoped_example not_scoped_example)

text \<open>
  Claim C5. In every run with the dry-run flag, the publish command is never invoked
  and nothing is removed: no removal is called, every directory the run made and every
  file it wrote is still on disk when the process ends, and so is everything that was
  there before. When the name is accepted and the directory and the two files can be
  written (and neither the help nor the version is asked for), the status is 0 and the
  temporary directory, the manifest and the notice document exist at the end.
\<close>
theorem dry_run_keeps_files:
  assumes "dryRun argv"
  shows "(\<forall>c d. ExecSyncCall c d \<notin> set (trace (snd (run e argv fs0)))) \<and>
         (\<forall>p. RmCall p \<notin> set (trace (snd (run e argv fs0)))) \<and>
         (\<forall>p. MkdirCall p \<in> set (trace (snd (run e argv fs0))) \<and> mkdir_error e p = None
               \<longrightarrow> fs (snd (run e argv fs0)) p = Some Dir) \<and>
         (\<forall>p c. WriteFileCall p c \<in> set (trace (snd (run e argv fs0))) \<and> writeFile_error e p = None
               \<longrightarrow> fs (snd (run e argv fs0)) p = Some (File c)) \<and>
         (\<forall>p. fs0 p \<noteq> None \<longrightarrow> fs (snd (run e argv fs0)) p \<noteq> None) \<and>
         (namesPackage argv s \<and> test validPackageNameRegex s \<and>
          mkdir_error e (packageDir e) = None \<and>
          writeFile_error e (manifestPath e) = None \<and>
          writeFile_error e (readmePath e) = None \<longrightarrow>
            fst (run e argv fs0) = 0 \<and>
            fs (snd (run e argv fs0)) (packageDir e) = Some Dir \<and>
            fs (snd (run e argv fs0)) (manifestPath e) = Some (File (manifestText s)) \<and>
            fs (snd (run e argv fs0)) (readmePath e) = Some (File (readmeContent s)))"
proof (cases rule: run_cases[of argv e fs0])
  case (parse_failed err)
  with assms show ?thesis by (simp add: dryRun_def)
next
  case (help_shown vals positionals)
  then show ?thesis by (auto dest: namesPackage_not_help)
next
  case (version_shown vals positionals)
  then show ?thesis by simp
next
  case (name_missing vals positionals)
  then show ?thesis by (auto simp: namesPackage_def dest: accepted_nonempty)
next
  case (rejected s' vals rest)
  then show ?thesis by (auto dest: namesPackage_unique)
next
  case (mkdir_fails s' msg vals rest)
  then show ?thesis by auto
next
  case (manifest_fails s' msg vals rest)
  then show ?thesis using paths_distinct[of e] by (auto simp: event_defs)
next
  case (readme_fails s' msg vals rest)
  then show ?thesis using paths_distinct[of e] by (auto simp: event_defs)
next
  case (dry s' vals rest)
  then show ?thesis using paths_distinct[of e] namesPackage_unique[of argv s s']
    by (auto simp: event_defs generatedFiles_def)
next
  case (publish_fails s' msg vals rest)
  with assms show ?thesis by simp
next
  case (cleaned s' vals rest)
  with assms show ?thesis by simp
next
  case (warned s' msg vals rest)
  with assms show ?thesis by simp
qed

theorem dry_run_keeps_files_witness:
  "dryRun [''@myorg/my-package'', ''--dry-run'', ''--access=restricted''] \<and>
   fst (run quietEnv [''@myorg/my-package'', ''--dry-run'', ''--access=restricted''] Map.empty) = 0 \<and>
   fs (snd (run quietEnv [''@myorg/my-package'', ''--dry-run'', ''--access=restricted''] Map.empty))
      (packageDir quietEnv) = Some Dir \<and>
   fs (snd (run quietEnv [''@myorg/my-package'', ''--dry-run'', ''--access=restricted''] Map.empty))
      (manifestPath quietEnv) = Some (File (manifestText ''@myorg/my-package'')) \<and>
   fs (snd (run quietEnv [''@myorg/my-package'', ''--dry-run'', ''--access=restricted''] Map.empty))
      (readmePath quietEnv) = Some (File (readmeContent ''@myorg/my-package''))"
  using dry_run_keeps_files[OF example_scoped(3), of quietEnv Map.empty "''@myorg/my-package''"]
  by (simp add: example_scoped quietEnv_oracles)

lemma example_published_run:
  "run quietEnv [''my-package''] Map.empty =
     (0, \<lparr>fs = removed quietEnv (generatedFiles quietEnv ''my-package'' Map.empty),
          trace = generationEvents quietEnv ''my-package''
                    @ publishEvents quietEnv ''my-package'' (JStr ''public'')
                    @ successEvents ''my-package'' @ cleanedEvents quietEnv\<rparr>)"
  using run_published_cleaned[of "[''my-package'']" "''my-package''" quietEnv Map.empty]
  by (simp add: example_unscoped quietEnv_oracles)

lemma example_warned_run:
  "run rmFailsEnv [''my-package''] Map.empty =
     (0, \<lparr>fs = generatedFiles rmFailsEnv ''my-package'' Map.empty,
          trace = generationEvents rmFailsEnv ''my-package''
                    @ publishEvents rmFailsEnv ''my-package'' (JStr ''public'')
                    @ successEvents ''my-package''
                    @ cleanupFailedEvents rmFailsEnv ''EBUSY: resource busy or locked''\<rparr>)"
  using run_published_warned[of "[''my-package'']" "''my-package''" rmFailsEnv
      "''EBUSY: resource busy or locked''" Map.empty]
  by (simp add: example_unscoped rmFailsEnv_oracles)

theorem publish_success_removes_directory_witness:
  "ExecSyncCall ''npm publish'' (packageDir quietEnv)
     \<in> set (trace (snd (run quietEnv [''my-package''] Map.empty))) \<and>
   execSync_error quietEnv ''npm publish'' (packageDir quietEnv) = None \<and>
   rm_error quietEnv (packageDir quietEnv) = None \<and>
   fst (run quietEnv [''my-package''] Map.empty) = 0 \<and>
   RmCall (packageDir quietEnv) \<in> set (trace (snd (run quietEnv [''my-package''] Map.empty))) \<and>
   fs (snd (run quietEnv [''my-package''] Map.empty)) (packageDir quietEnv) = None \<and>
   fs (snd (run quietEnv [''my-package''] Map.empty)) (manifestPath quietEnv) = None \<and>
   fs (snd (run quietEnv [''my-package''] Map.empty)) (readmePath quietEnv) = None"
proof -
  have x: "ExecSyncCall ''npm publish'' (packageDir quietEnv)
     \<in> set (trace (snd (run quietEnv [''my-package''] Map.empty)))"
    by (simp add: example_published_run) (simp add: event_defs example_unscoped)
  have ok: "execSync_error quietEnv ''npm publish'' (packageDir quietEnv) = None"
    by (rule quietEnv_oracles)
  have rm: "rm_error quietEnv (packageDir quietEnv) = None"
    by (rule quietEnv_oracles)
  from publish_success_removes_directory[OF x ok] x ok rm show ?thesis by blast
qed

lemma packageDir_rm_error:
  "packageDir (e\<lparr>rm_error := r\<rparr>) = packageDir e"
  "manifestPath (e\<lparr>rm_error := r\<rparr>) = manifestPath e"
  "readmePath (e\<lparr>rm_error := r\<rparr>) = readmePath e"
  by (simp_all add: manifestPath_def readmePath_def packageDir_def tempDirName_def randomBytes_def)

text \<open>
  Claim C8. What the removal does never changes the status of the process: two runs
  that differ only in the outcome of the removal end with the same status. A run in
  which the removal of the temporary directory fails prints a warning with the message
  of the failure as its last line, prints no error, and ends with status 0, the
  status the steps before the cleanup had determined.
\<close>
theorem cleanup_failure_is_a_warning:
  "fst (run (e\<lparr>rm_error := r\<rparr>) argv fs0) = fst (run e argv fs0) \<and>
   (RmCall d \<in> set (trace (snd (run e argv fs0))) \<and> rm_error e d = Some msg \<longrightarrow>
      fst (run e argv fs0) = 0 \<and>
      last (trace (snd (run e argv fs0))) =
        ConsoleWarn (emoji_warning @ ''  Could not clean up temp directory: '' @ msg) \<and>
      (\<forall>m. ConsoleError m \<notin> set (trace (snd (run e argv fs0)))) \<and>
      (\<forall>m. UncaughtError m \<notin> set (trace (snd (run e argv fs0)))))"
proof (rule conjI)
  show "fst (run (e\<lparr>rm_error := r\<rparr>) argv fs0) = fst (run e argv fs0)"
    by (simp only: run_status packageDir_rm_error) (auto split: sum.splits list.splits)
next
  show "RmCall d \<in> set (trace (snd (run e argv fs0))) \<and> rm_error e d = Some msg \<longrightarrow>
      fst (run e argv fs0) = 0 \<and>
      last (trace (snd (run e argv fs0))) =
        ConsoleWarn (emoji_warning @ ''  Could not clean up temp directory: '' @ msg) \<and>
      (\<forall>m. ConsoleError m \<notin> set (trace (snd (run e argv fs0)))) \<and>
      (\<forall>m. UncaughtError m \<notin> set (trace (snd (run e argv fs0))))"
  proof (cases rule: run_cases[of argv e fs0])
    case (cleaned s vals rest)
    then show ?thesis by (auto simp: event_defs)
  next
    case (warned s msg' vals rest)
    then show ?thesis by (auto simp: event_defs)
  qed (simp_all add: event_defs)
qed

theorem cleanup_failure_is_a_warning_witness:
  "RmCall (packageDir rmFailsEnv) \<in> set (trace (snd (run rmFailsEnv [''my-package''] Map.empty))) \<and>
   rm_error rmFailsEnv (packageDir rmFailsEnv) = Some ''EBUSY: resource busy or locked'' \<and>
   fst (run rmFailsEnv [''my-package''] Map.empty) = 0 \<and>
   fst (run (rmFailsEnv\<lparr>rm_error := (\<lambda>_. None)\<rparr>) [''my-package''] Map.empty) = 0 \<and>
   last (trace (snd (run rmFailsEnv [''my-package''] Map.empty))) =
     ConsoleWarn (emoji_warning @ ''  Could not clean up temp directory: EBUSY: resource busy or locked'')"
proof -
  have x: "RmCall (packageDir rmFailsEnv) \<in> set (trace (snd (run rmFailsEnv [''my-package''] Map.empty)))"
    by (simp add: example_warned_run) (simp add: event_defs)
  have f: "rm_error rmFailsEnv (packageDir rmFailsEnv) = Some ''EBUSY: resource busy or locked''"
    by (rule rmFailsEnv_oracles)
  from cleanup_failure_is_a_warning[where e = rmFailsEnv and r = "\<lambda>_. None"
      and argv = "[''my-package'']" and ?fs0.0 = Map.empty and d = "packageDir rmFailsEnv"
      and msg = "''EBUSY: resource busy or locked''"] x f
  show ?thesis by simp
qed

lemma written_content:
  assumes "WriteFileCall p c \<in> set (trace (snd (run e argv fs0)))" and "namesPackage argv s"
  shows "(p = manifestPath e \<and> c = manifestText s) \<or> (p = readmePath e \<and> c = readmeContent s)"
proof (cases rule: run_cases[of argv e fs0])
  case (manifest_fails s' msg vals rest)
  with assms namesPackage_unique[of argv s s'] show ?thesis by (auto simp: event_defs)
next
  case (readme_fails s' msg vals rest)
  with assms namesPackage_unique[of argv s s'] show ?thesis by (auto simp: event_defs)
next
  case (dry s' vals rest)
  with assms namesPackage_unique[of argv s s'] show ?thesis by (auto simp: event_defs)
next
  case (publish_fails s' msg vals rest)
  with assms namesPackage_unique[of argv s s'] show ?thesis by (auto simp: event_defs)
next
  case (cleaned s' vals rest)
  with assms namesPackage_unique[of argv s s'] show ?thesis by (auto simp: event_defs)
next
  case (warned s' msg vals rest)
  with assms namesPackage_unique[of argv s s'] show ?thesis by (auto simp: event_defs)
qed (use assms in \<open>simp_all add: event_defs\<close>)

text \<open>
  Claim C10. The contents of the generated files depend on the package name alone:
  two runs on the same package name, in whatever environments and with whatever flags
  (dry run or not, any access level), write the same bytes to \<open>package.json\<close>, and
  the same bytes to \<open>README.md\<close>.
\<close>
theorem generated_files_depend_on_name_only:
  assumes "namesPackage argv1 s" and "namesPackage argv2 s"
    and "WriteFileCall (join (packageDir e1) f) c1 \<in> set (trace (snd (run e1 argv1 fs1)))"
    and "WriteFileCall (join (packageDir e2) f) c2 \<in> set (trace (snd (run e2 argv2 fs2)))"
  shows "c1 = c2"
proof -
  from written_content[OF assms(3,1)]
  have 1: "(f = ''package.json'' \<and> c1 = manifestText s) \<or> (f = ''README.md'' \<and> c1 = readmeContent s)"
    by (simp add: manifestPath_def readmePath_def join_def)
  from written_content[OF assms(4,2)]
  have 2: "(f = ''package.json'' \<and> c2 = manifestText s) \<or> (f = ''README.md'' \<and> c2 = readmeContent s)"
    by (simp add: manifestPath_def readmePath_def join_def)
  from 1 2 show ?thesis by auto
qed

section \<open>The access option\<close>

lemma optionType_options:
  "optionType options n =
     (if n = ''help'' \<or> n = ''version'' \<or> n = ''dry-run'' then Some TBoolean
      else if n = ''access'' then Some TString else None)"
  by (simp add: optionType_def options_def)

lemma findLong_options:
  "findLongOptionForShort options c =
     (if c = CHR ''h'' then ''help'' else if c = CHR ''v'' then ''version'' else [c])"
  by (simp add: findLongOptionForShort_def options_def)

lemma short_not_string: "optionType options (findLongOptionForShort options c) \<noteq> Some TString"
  by (simp add: optionType_options findLong_options)

lemma expandShorts_options: "expandShorts options cs = map (\<lambda>c. [CHR ''-'', c]) cs"
  by (induction cs) (simp_all add: short_not_string)

lemma startsWith_iff: "startsWith s p \<longleftrightarrow> (\<exists>r. s = p @ r)"
proof
  assume "startsWith s p"
  then have "s = p @ drop (length p) s"
    unfolding startsWith_def by (metis append_take_drop_id)
  then show "\<exists>r. s = p @ r" ..
next
  assume "\<exists>r. s = p @ r"
  then show "startsWith s p" by (auto simp: startsWith_def)
qed

lemma startsWith_access_length: "startsWith a ''--access'' \<Longrightarrow> 8 \<le> length a"
  by (auto simp: startsWith_iff)

lemma long_access:
  assumes "startsWith arg ''--''" "drop 2 arg = ''access''"
  shows "startsWith arg ''--access''"
proof -
  from assms(1) obtain r where r: "arg = ''--'' @ r" unfolding startsWith_iff ..
  with assms(2) have "r = ''access''" by simp
  with r show ?thesis by (simp add: startsWith_iff)
qed

lemma long_value_access:
  assumes "startsWith arg ''--''" "take n (drop 2 arg) = ''access''"
  shows "startsWith arg ''--access''"
proof -
  from assms(1) obtain r where r: "arg = ''--'' @ r" unfolding startsWith_iff ..
  with assms(2) have "take n r = ''access''" by simp
  then have "r = ''access'' @ drop n r" by (metis append_take_drop_id)
  with r have "arg = ''--access'' @ drop n r" by simp
  then show ?thesis unfolding startsWith_iff ..
qed

text \<open>Only an argument that begins with \<open>--access\<close> yields a token of the access option.\<close>

declare argsToTokens.simps(2) [simp del]

lemma short_name_not_access:
  "findLongOptionForShort options c \<noteq> ''access''" "''access'' \<noteq> findLongOptionForShort options c"
  by (simp_all add: findLong_options)

lemma optionType_string: "optionType options n = Some TString \<longleftrightarrow> n = ''access''"
  by (simp add: optionType_options)

text \<open>The loop on the options of the script: no short option takes a value.\<close>

lemma argsToTokens_options:
  "argsToTokens options (arg # rest) =
     (if arg = ''--'' then OptionTerminator # map Positional rest
      else if isLoneShortOption arg then
        OptionTok (findLongOptionForShort options (arg ! 1)) arg None None
          # argsToTokens options rest
      else if isShortOptionGroup options arg then
        argsToTokens options (map (\<lambda>c. [CHR ''-'', c]) (tl arg) @ rest)
      else if isLoneLongOption arg then
        (if drop 2 arg = ''access'' then
           (case rest of
              nextArg # rest' \<Rightarrow>
                OptionTok ''access'' arg (Some nextArg) (Some False) # argsToTokens options rest'
            | [] \<Rightarrow> [OptionTok ''access'' arg None None])
         else OptionTok (drop 2 arg) arg None None # argsToTokens options rest)
      else if isLongOptionAndValue arg then
        OptionTok (take (length (takeWhile (\<lambda>c. c \<noteq> CHR ''='') arg) - 2) (drop 2 arg))
          (''--'' @ take (length (takeWhile (\<lambda>c. c \<noteq> CHR ''='') arg) - 2) (drop 2 arg))
          (Some (drop (length (takeWhile (\<lambda>c. c \<noteq> CHR ''='') arg) + 1) arg)) (Some True)
          # argsToTokens options rest
      else Positional arg # argsToTokens options rest)"
  by (subst argsToTokens.simps(2))
     (simp add: short_name_not_access optionType_string isShortOptionAndValue_def
        expandShorts_options Let_def split: list.splits)

lemma access_token_origin_aux:
  "opts = options \<Longrightarrow> OptionTok ''access'' raw v i \<in> set (argsToTokens opts args)
     \<Longrightarrow> \<exists>a \<in> set args. startsWith a ''--access''"
proof (induct opts args arbitrary: raw v i rule: argsToTokens.induct)
  case (1 opts)
  then show ?case by simp
next
  case (2 opts arg remainingArgs)
  note opts = \<open>opts = options\<close>
  have mem: "OptionTok ''access'' raw v i \<in> set (argsToTokens options (arg # remainingArgs))"
    using "2.prems" by simp
  have tail: "\<exists>a \<in> set (arg # remainingArgs). startsWith a ''--access''"
    if "\<exists>a \<in> set remainingArgs. startsWith a ''--access''"
    using that by auto
  show ?case
  proof (cases "arg = ''--''")
    case True
    with mem show ?thesis by (auto simp: argsToTokens_options)
  next
    case notterm: False
    show ?thesis
    proof (cases "isLoneShortOption arg")
      case True
      with notterm mem have m: "OptionTok ''access'' raw v i \<in> set (argsToTokens options remainingArgs)"
        by (simp add: argsToTokens_options short_name_not_access)
      show ?thesis
      proof (cases remainingArgs)
        case Nil
        with m show ?thesis by simp
      next
        case (Cons x xs)
        have "optionType opts (findLongOptionForShort opts (arg ! 1)) \<noteq> Some TString"
          unfolding opts by (rule short_not_string)
        from "2.hyps"(2)[OF notterm True refl Cons this opts m[folded opts]]
        show ?thesis by (rule tail)
      qed
    next
      case notlone: False
      show ?thesis
      proof (cases "isShortOptionGroup options arg")
        case True
        with notterm notlone mem
        have "OptionTok ''access'' raw v i
                \<in> set (argsToTokens options (expandShorts options (tl arg) @ remainingArgs))"
          by (simp add: argsToTokens_options expandShorts_options)
        with "2.hyps"(3)[OF notterm notlone True[folded opts] opts] opts
        obtain a where a: "a \<in> set (expandShorts options (tl arg) @ remainingArgs)"
          "startsWith a ''--access''" by blast
        then have "a \<in> set remainingArgs"
          by (auto simp: expandShorts_options dest: startsWith_access_length)
        with a show ?thesis by auto
      next
        case notgroup: False
        have notsv: "\<not> isShortOptionAndValue options arg"
          by (simp add: isShortOptionAndValue_def short_not_string)
        show ?thesis
        proof (cases "isLoneLongOption arg")
          case long: True
          show ?thesis
          proof (cases "drop 2 arg = ''access''")
            case True
            with long have "startsWith arg ''--access''"
              by (simp add: isLoneLongOption_def long_access)
            then show ?thesis by simp
          next
            case False
            with notterm notlone notgroup long mem
            have m: "OptionTok ''access'' raw v i \<in> set (argsToTokens options remainingArgs)"
              by (simp add: argsToTokens_options)
            show ?thesis
            proof (cases remainingArgs)
              case Nil
              with m show ?thesis by simp
            next
              case (Cons x xs)
              have "optionType opts (drop 2 arg) \<noteq> Some TString"
                unfolding opts using False by (simp add: optionType_options)
              from "2.hyps"(6)[OF notterm notlone notgroup[folded opts] notsv[folded opts] long
                  refl Cons this opts m[folded opts]]
              show ?thesis by (rule tail)
            qed
          qed
        next
          case notlong: False
          show ?thesis
          proof (cases "isLongOptionAndValue arg")
            case True
            show ?thesis
            proof (cases "take (length (takeWhile (\<lambda>c. c \<noteq> CHR ''='') arg) - 2) (drop 2 arg) = ''access''")
              case acc: True
              from True have "startsWith arg ''--''" by (simp add: isLongOptionAndValue_def)
              with acc have "startsWith arg ''--access''" by (rule long_value_access[rotated])
              then show ?thesis by simp
            next
              case False
              with notterm notlone notgroup notlong True mem
              have m: "OptionTok ''access'' raw v i \<in> set (argsToTokens options remainingArgs)"
                by (simp add: argsToTokens_options)
              from "2.hyps"(7)[OF notterm notlone notgroup[folded opts] notsv[folded opts] notlong
                  True refl refl refl opts m[folded opts]]
              show ?thesis by (rule tail)
            qed
          next
            case False
            with notterm notlone notgroup notlong mem
            have m: "OptionTok ''access'' raw v i \<in> set (argsToTokens options remainingArgs)"
              by (simp add: argsToTokens_options)
            from "2.hyps"(8)[OF notterm notlone notgroup[folded opts] notsv[folded opts] notlong
                False opts m[folded opts]]
            show ?thesis by (rule tail)
          qed
        qed
      qed
    qed
  qed
qed

lemma access_token_origin:
  "OptionTok ''access'' raw v i \<in> set (argsToTokens options args)
     \<Longrightarrow> \<exists>a \<in> set args. startsWith a ''--access''"
  by (rule access_token_origin_aux[OF refl])

lemma storeOption_access:
  "storeOption n v vals ''access'' =
     (if n = ''access'' then (case v of None \<Rightarrow> JBool True | Some l \<Rightarrow> JStr l) else vals ''access'')"
  by (simp add: storeOption_def)

lemma fillDefaults_access:
  "fillDefaults options vals ''access'' =
     (if vals ''access'' = Undefined then JStr ''public'' else vals ''access'')"
  by (simp add: options_def)

text \<open>The strict checks let only a string be stored for the access option.\<close>

lemma processTokens_access_string:
  assumes "processTokens options toks (vals, pos) = Inr (vals', pos')"
    and "vals ''access'' = Undefined \<or> (\<exists>l. vals ''access'' = JStr l)"
  shows "vals' ''access'' = Undefined \<or> (\<exists>l. vals' ''access'' = JStr l)"
  using assms
proof (induction toks arbitrary: vals pos)
  case Nil
  then show ?case by simp
next
  case (Cons tok toks)
  show ?case
  proof (cases tok)
    case (OptionTok n raw v i)
    with Cons.prems(1) obtain ok: "checkOptionUsage options n raw v = None"
      and rest: "processTokens options toks (storeOption n v vals, pos) = Inr (vals', pos')"
      by (auto split: option.splits)
    from ok have "n = ''access'' \<Longrightarrow> v \<noteq> None"
      by (auto simp: checkOptionUsage_def optionType_options split: if_splits)
    with Cons.prems(2)
    have "storeOption n v vals ''access'' = Undefined \<or> (\<exists>l. storeOption n v vals ''access'' = JStr l)"
      by (auto simp: storeOption_access)
    with rest show ?thesis by (rule Cons.IH)
  next
    case (Positional p)
    with Cons.prems have "processTokens options toks (vals, pos @ [p]) = Inr (vals', pos')" by simp
    then show ?thesis using Cons.prems(2) by (rule Cons.IH)
  next
    case OptionTerminator
    with Cons.prems have "processTokens options toks (vals, pos) = Inr (vals', pos')" by simp
    then show ?thesis using Cons.prems(2) by (rule Cons.IH)
  qed
qed

lemma processTokens_no_access:
  assumes "processTokens options toks (vals, pos) = Inr (vals', pos')"
    and "\<forall>raw v i. OptionTok ''access'' raw v i \<notin> set toks"
  shows "vals' ''access'' = vals ''access''"
  using assms
proof (induction toks arbitrary: vals pos)
  case Nil
  then show ?case by simp
next
  case (Cons tok toks)
  from Cons.prems(2) have later: "\<forall>raw v i. OptionTok ''access'' raw v i \<notin> set toks" by simp
  show ?case
  proof (cases tok)
    case (OptionTok n raw v i)
    with Cons.prems(1) have
      rest: "processTokens options toks (storeOption n v vals, pos) = Inr (vals', pos')"
      by (auto split: option.splits)
    from OptionTok Cons.prems(2) have "n \<noteq> ''access''" by auto
    then have "storeOption n v vals ''access'' = vals ''access''" by (simp add: storeOption_access)
    with Cons.IH[OF rest later] show ?thesis by simp
  next
    case (Positional p)
    with Cons.prems have "processTokens options toks (vals, pos @ [p]) = Inr (vals', pos')" by simp
    then show ?thesis using later by (rule Cons.IH)
  next
    case OptionTerminator
    with Cons.prems have "processTokens options toks (vals, pos) = Inr (vals', pos')" by simp
    then show ?thesis using later by (rule Cons.IH)
  qed
qed

lemma parseArgs_result:
  assumes "parseArgs options argv = Inr (vals, positionals)"
  obtains vals0 where
    "processTokens options (argsToTokens options argv) (\<lambda>_. Undefined, []) = Inr (vals0, positionals)"
    and "vals = fillDefaults options vals0"
  using assms by (auto simp: parseArgs_def split: sum.splits)

lemma access_string:
  assumes "parseArgs options argv = Inr (vals, positionals)"
  shows "\<exists>level. vals ''access'' = JStr level"
proof -
  from assms obtain vals0 where
    p: "processTokens options (argsToTokens options argv) (\<lambda>_. Undefined, []) = Inr (vals0, positionals)"
    and v: "vals = fillDefaults options vals0"
    by (rule parseArgs_result)
  from processTokens_access_string[OF p]
  have "vals0 ''access'' = Undefined \<or> (\<exists>l. vals0 ''access'' = JStr l)" by simp
  with v show ?thesis by (auto simp: fillDefaults_access)
qed

lemma access_default:
  assumes "parseArgs options argv = Inr (vals, positionals)"
    and "\<forall>a \<in> set argv. \<not> startsWith a ''--access''"
  shows "vals ''access'' = JStr ''public''"
proof -
  from assms(1) obtain vals0 where
    p: "processTokens options (argsToTokens options argv) (\<lambda>_. Undefined, []) = Inr (vals0, positionals)"
    and v: "vals = fillDefaults options vals0"
    by (rule parseArgs_result)
  from assms(2) have "\<forall>raw v i. OptionTok ''access'' raw v i \<notin> set (argsToTokens options argv)"
    by (blast dest: access_token_origin)
  from processTokens_no_access[OF p this] have "vals0 ''access'' = Undefined" by simp
  with v show ?thesis by (simp add: fillDefaults_access)
qed

lemma access_given:
  "namesPackage [''--access='' @ level, ''@myorg/my-package''] ''@myorg/my-package''"
  "\<not> dryRun [''--access='' @ level, ''@myorg/my-package'']"
  "accessValue [''--access='' @ level, ''@myorg/my-package''] = JStr level"
proof -
  have tok: "argsToTokens options [''--access='' @ level, ''@myorg/my-package''] =
          [OptionTok ''access'' ''--access'' (Some level) (Some True), Positional ''@myorg/my-package'']"
    by (simp add: argsToTokens_options isLoneShortOption_def isShortOptionGroup_def
        isLoneLongOption_def isLongOptionAndValue_def startsWith_def)
  have "parseArgs options [''--access='' @ level, ''@myorg/my-package''] =
          Inr (fillDefaults options ((\<lambda>_. Undefined)(''access'' := JStr level)), [''@myorg/my-package''])"
    by (simp only: parseArgs_def tok)
       (simp add: checkOptionUsage_def optionType_options checkOptionLikeValue_def storeOption_def)
  then show "namesPackage [''--access='' @ level, ''@myorg/my-package''] ''@myorg/my-package''"
    "\<not> dryRun [''--access='' @ level, ''@myorg/my-package'']"
    "accessValue [''--access='' @ level, ''@myorg/my-package''] = JStr level"
    by (simp_all add: invocation_defs options_def)
qed

lemma publish_invoked:
  assumes "namesPackage argv s" and "test validPackageNameRegex s" and "\<not> dryRun argv"
    and "mkdir_error e (packageDir e) = None"
    and "writeFile_error e (manifestPath e) = None"
    and "writeFile_error e (readmePath e) = None"
  shows "ExecSyncCall (publishCmd s (accessValue argv)) (packageDir e)
           \<in> set (trace (snd (run e argv fs0)))"
proof (cases "execSync_error e (publishCmd s (accessValue argv)) (packageDir e)")
  case (Some msg)
  with assms have "run e argv fs0 =
           (1, \<lparr>fs = generatedFiles e s fs0,
                trace = generationEvents e s @ publishEvents e s (accessValue argv)
                          @ failureEvents e s (accessValue argv) msg\<rparr>)"
    by (intro run_publish_fails)
  then show ?thesis by (simp add: publishEvents_def)
next
  case None
  show ?thesis
  proof (cases "rm_error e (packageDir e)")
    case rm: None
    with assms \<open>execSync_error e (publishCmd s (accessValue argv)) (packageDir e) = None\<close>
    have "run e argv fs0 =
           (0, \<lparr>fs = removed e (generatedFiles e s fs0),
                trace = generationEvents e s @ publishEvents e s (accessValue argv)
                          @ successEvents s @ cleanedEvents e\<rparr>)"
      by (intro run_published_cleaned)
    then show ?thesis by (simp add: publishEvents_def)
  next
    case (Some msg)
    with assms None have "run e argv fs0 =
           (0, \<lparr>fs = generatedFiles e s fs0,
                trace = generationEvents e s @ publishEvents e s (accessValue argv)
                          @ successEvents s @ cleanupFailedEvents e msg\<rparr>)"
      by (intro run_published_warned)
    then show ?thesis by (simp add: publishEvents_def)
  qed
qed

text \<open>
  Claim C7, as amended. For every parsed invocation the access option holds a string,
  \<open>public\<close> when no argument gives the option; the string is not checked against
  \<open>public\<close> and \<open>restricted\<close>. Any string \<open>level\<close> given as \<open>--access=level\<close> is
  the value of the option, and the invocation proceeds with it: for the scoped name
  of the example, once the directory and the files are written, the command
  \<open>npm publish --access level\<close> is invoked.
\<close>
theorem access_is_any_string:
  "(parseArgs options argv = Inr (vals, positionals) \<longrightarrow>
      (\<exists>level. vals ''access'' = JStr level) \<and>
      ((\<forall>a \<in> set argv. \<not> startsWith a ''--access'') \<longrightarrow> vals ''access'' = JStr ''public'')) \<and>
   namesPackage [''--access='' @ level, ''@myorg/my-package''] ''@myorg/my-package'' \<and>
   accessValue [''--access='' @ level, ''@myorg/my-package''] = JStr level \<and>
   (mkdir_error e (packageDir e) = None \<and> writeFile_error e (manifestPath e) = None \<and>
    writeFile_error e (readmePath e) = None \<longrightarrow>
      ExecSyncCall (''npm publish --access '' @ level) (packageDir e)
        \<in> set (trace (snd (run e [''--access='' @ level, ''@myorg/my-package''] fs0))))"
proof (intro conjI impI)
  assume "parseArgs options argv = Inr (vals, positionals)"
  then show "\<exists>level. vals ''access'' = JStr level" by (rule access_string)
next
  assume "parseArgs options argv = Inr (vals, positionals)"
    and "\<forall>a \<in> set argv. \<not> startsWith a ''--access''"
  then show "vals ''access'' = JStr ''public''" by (rule access_default)
next
  show "namesPackage [''--access='' @ level, ''@myorg/my-package''] ''@myorg/my-package''"
    by (rule access_given)
next
  show "accessValue [''--access='' @ level, ''@myorg/my-package''] = JStr level"
    by (rule access_given)
next
  assume ok: "mkdir_error e (packageDir e) = None \<and> writeFile_error e (manifestPath e) = None \<and>
    writeFile_error e (readmePath e) = None"
  have cmd: "publishCmd ''@myorg/my-package'' (JStr level) = ''npm publish --access '' @ level"
    by (simp add: publishCmd_def startsWith_def)
  from ok have
    "ExecSyncCall
       (publishCmd ''@myorg/my-package'' (accessValue [''--access='' @ level, ''@myorg/my-package'']))
       (packageDir e)
       \<in> set (trace (snd (run e [''--access='' @ level, ''@myorg/my-package''] fs0)))"
    using access_given(1,2)[of level] example_scoped(2) by (intro publish_invoked) blast+
  then show "ExecSyncCall (''npm publish --access '' @ level) (packageDir e)
        \<in> set (trace (snd (run e [''--access='' @ level, ''@myorg/my-package''] fs0)))"
    by (simp only: access_given(3) cmd)
qed

lemma example_internal:
  "namesPackage [''--access'', ''internal'', ''@myorg/my-package''] ''@myorg/my-package''"
  "\<not> dryRun [''--access'', ''internal'', ''@myorg/my-package'']"
  "accessValue [''--access'', ''internal'', ''@myorg/my-package''] = JStr ''internal''"
  "publishCmd ''@myorg/my-package'' (JStr ''internal'') = ''npm publish --access internal''"
  by code_simp+

lemma example_internal_run:
  "run quietEnv [''--access'', ''internal'', ''@myorg/my-package''] Map.empty =
     (0, \<lparr>fs = removed quietEnv (generatedFiles quietEnv ''@myorg/my-package'' Map.empty),
          trace = generationEvents quietEnv ''@myorg/my-package''
                    @ publishEvents quietEnv ''@myorg/my-package'' (JStr ''internal'')
                    @ successEvents ''@myorg/my-package'' @ cleanedEvents quietEnv\<rparr>)"
  using run_published_cleaned[of "[''--access'', ''internal'', ''@myorg/my-package'']"
      "''@myorg/my-package''" quietEnv Map.empty]
  by (simp add: example_internal example_scoped(2) quietEnv_oracles)

theorem access_outside_the_enum:
  "accessValue [''--access'', ''internal'', ''@myorg/my-package''] = JStr ''internal'' \<and>
   ''internal'' \<noteq> ''public'' \<and> ''internal'' \<noteq> ''restricted'' \<and>
   fst (run quietEnv [''--access'', ''internal'', ''@myorg/my-package''] Map.empty) = 0 \<and>
   ExecSyncCall ''npm publish --access internal'' (packageDir quietEnv)
     \<in> set (trace (snd (run quietEnv [''--access'', ''internal'', ''@myorg/my-package''] Map.empty)))"
  by (simp add: example_internal_run example_internal(3))
     (simp add: event_defs example_internal(4))

theorem access_is_any_string_witness:
  "(\<exists>vals positionals. parseArgs options [''my-package''] = Inr (vals, positionals) \<and>
           vals ''access'' = JStr ''public'') \<and>
   accessValue [''--access=internal'', ''@myorg/my-package''] = JStr ''internal'' \<and>
   ExecSyncCall ''npm publish --access internal'' (packageDir quietEnv)
        \<in> set (trace (snd (run quietEnv [''--access=internal'', ''@myorg/my-package''] Map.empty)))"
proof -
  obtain vals rest where p: "parseArgs options [''my-package''] = Inr (vals, ''my-package'' # rest)"
    using example_unscoped(1) by (rule namesPackage_parse)
  have n: "\<forall>a \<in> set [''my-package'']. \<not> startsWith a ''--access''"
    by (simp add: startsWith_def)
  from access_is_any_string[of "[''my-package'']" vals "''my-package'' # rest" "''internal''"
      quietEnv Map.empty] p n
  have "vals ''access'' = JStr ''public''"
    and "accessValue [''--access=internal'', ''@myorg/my-package''] = JStr ''internal''"
    and "ExecSyncCall ''npm publish --access internal'' (packageDir quietEnv)
        \<in> set (trace (snd (run quietEnv [''--access=internal'', ''@myorg/my-package''] Map.empty)))"
    by (simp_all add: quietEnv_oracles)
  with p show ?thesis by blast
qed

lemma example_scoped_publish:
  "namesPackage [''@myorg/my-package''] ''@myorg/my-package''"
  "\<not> dryRun [''@myorg/my-package'']"
  by code_simp+

theorem generated_files_depend_on_name_only_witness:
  "namesPackage [''@myorg/my-package'', ''--dry-run'', ''--access=restricted''] ''@myorg/my-package'' \<and>
   namesPackage [''@myorg/my-package''] ''@myorg/my-package'' \<and>
   WriteFileCall (join (packageDir quietEnv) ''README.md'') (readmeContent ''@myorg/my-package'')
     \<in> set (trace (snd (run quietEnv
           [''@myorg/my-package'', ''--dry-run'', ''--access=restricted''] Map.empty))) \<and>
   (\<exists>c. WriteFileCall (join (packageDir publishFailsEnv) ''README.md'') c
          \<in> set (trace (snd (run publishFailsEnv [''@myorg/my-package''] Map.empty))) \<and>
        c = readmeContent ''@myorg/my-package'')"
proof -
  have a: "WriteFileCall (join (packageDir quietEnv) ''README.md'') (readmeContent ''@myorg/my-package'')
     \<in> set (trace (snd (run quietEnv
           [''@myorg/my-package'', ''--dry-run'', ''--access=restricted''] Map.empty)))"
    using run_dry[OF example_scoped(1,2,3) quietEnv_oracles(1,2,2), of Map.empty]
    by (simp add: event_defs readmePath_def)
  have b: "WriteFileCall (join (packageDir publishFailsEnv) ''README.md'')
              (readmeContent ''@myorg/my-package'')
          \<in> set (trace (snd (run publishFailsEnv [''@myorg/my-package''] Map.empty)))"
    using run_publish_fails[OF example_scoped_publish(1) example_scoped(2) example_scoped_publish(2)
        publishFailsEnv_oracles(1,2,2) publishFailsEnv_oracles(3), of Map.empty]
    by (simp add: event_defs readmePath_def)
  have "readmeContent ''@myorg/my-package'' = readmeContent ''@myorg/my-package''"
    by (rule generated_files_depend_on_name_only[OF example_scoped_publish(1) example_scoped(1) b a])
  with a b example_scoped(1) example_scoped_publish(1) show ?thesis by blast
qed

section \<open>The help flag\<close>

text \<open>
  Arguments that do not begin with a hyphen are positionals, and \<open>--help\<close> and \<open>-h\<close>
  among them set the help flag.
\<close>

lemma positional_arg:
  assumes "\<not> startsWith p ''-''"
  shows "argsToTokens options (p # rest) = Positional p # argsToTokens options rest"
proof (cases p)
  case Nil
  then show ?thesis
    by (simp add: argsToTokens_options isLoneShortOption_def isShortOptionGroup_def
          isLoneLongOption_def isLongOptionAndValue_def)
next
  case (Cons c cs)
  with assms have "c \<noteq> CHR ''-''" by (simp add: startsWith_def)
  with Cons show ?thesis
    by (simp add: argsToTokens_options isLoneShortOption_def isShortOptionGroup_def
          isLoneLongOption_def isLongOptionAndValue_def startsWith_def)
qed

lemma positional_args:
  "\<forall>p \<in> set ps. \<not> startsWith p ''-'' \<Longrightarrow>
     argsToTokens options (ps @ rest) = map Positional ps @ argsToTokens options rest"
  by (induction ps) (simp_all add: positional_arg)

lemma help_arg:
  assumes "h = ''--help'' \<or> h = ''-h''"
  shows "argsToTokens options (h # rest) = OptionTok ''help'' h None None # argsToTokens options rest"
  using assms
  by (auto simp: argsToTokens_options isLoneShortOption_def isShortOptionGroup_def
        isLoneLongOption_def startsWith_def findLong_options)

lemma processTokens_positionals:
  "processTokens opts (map Positional ps @ toks) (vals, pos) = processTokens opts toks (vals, pos @ ps)"
  by (induction ps arbitrary: pos) simp_all

lemma fillDefaults_help:
  "fillDefaults options vals ''help'' =
     (if vals ''help'' = Undefined then JBool False else vals ''help'')"
  by (simp add: options_def)

lemma help_among_positionals:
  assumes h: "h = ''--help'' \<or> h = ''-h''"
    and ps: "\<forall>p \<in> set (ps @ qs). \<not> startsWith p ''-''"
  shows "helpRequested (ps @ h # qs)"
proof -
  from ps have p: "\<forall>p \<in> set ps. \<not> startsWith p ''-''" and q: "\<forall>p \<in> set qs. \<not> startsWith p ''-''"
    by auto
  have "argsToTokens options (ps @ h # qs)
          = map Positional ps @ OptionTok ''help'' h None None # map Positional qs @ []"
    using positional_args[OF p, of "h # qs"] help_arg[OF h, of qs] positional_args[OF q, of "[]"]
    by simp
  then have "parseArgs options (ps @ h # qs)
          = Inr (fillDefaults options (storeOption ''help'' None (\<lambda>_. Undefined)), ps @ qs)"
    by (simp add: parseArgs_def processTokens_positionals checkOptionUsage_def
          optionType_options checkOptionLikeValue_def isOptionLikeValue_def
          processTokens_positionals[where toks = "[]", simplified])
  then show ?thesis
    by (simp add: helpRequested_def fillDefaults_help storeOption_def)
qed

text \<open>
  Claim C9, as amended. For every invocation whose arguments \<open>parseArgs\<close> accepts with
  the help flag set, the tool prints the usage text and ends with status 0 at once: the
  usage text is all it prints and the file system is as it was, so no name is checked
  and no call to the file system or to the child process is made. An invocation whose
  arguments \<open>parseArgs\<close> refuses (an unknown option, a missing or an unexpected value) is
  not such an invocation, whether or not \<open>--help\<close> is among the arguments: the error is
  caught nowhere, the process ends with status 1 and the usage text is not printed.
  \<open>--help\<close> or \<open>-h\<close> among arguments that do not begin with a hyphen is always accepted
  with the flag set, whatever these positional arguments are, none and invalid names
  included.
\<close>

theorem help_exits_at_once:
  "(helpRequested argv \<longrightarrow> run e argv fs0 = (0, \<lparr>fs = fs0, trace = [ConsoleLog usage]\<rparr>)) \<and>
   (parseArgs options argv = Inl err \<longrightarrow>
      \<not> helpRequested argv \<and>
      run e argv fs0 = (1, \<lparr>fs = fs0, trace = [UncaughtParseArgsError err]\<rparr>)) \<and>
   ((h = ''--help'' \<or> h = ''-h'') \<and> (\<forall>p \<in> set (ps @ qs). \<not> startsWith p ''-'') \<longrightarrow>
      helpRequested (ps @ h # qs))"
proof (intro conjI impI)
  assume "helpRequested argv"
  then show "run e argv fs0 = (0, \<lparr>fs = fs0, trace = [ConsoleLog usage]\<rparr>)"
    by (auto simp: helpRequested_def run_def script_defs split: sum.splits)
next
  assume "parseArgs options argv = Inl err"
  then show "\<not> helpRequested argv" by (simp add: helpRequested_def)
next
  assume "parseArgs options argv = Inl err"
  then show "run e argv fs0 = (1, \<lparr>fs = fs0, trace = [UncaughtParseArgsError err]\<rparr>)"
    by (simp add: run_def)
next
  assume "(h = ''--help'' \<or> h = ''-h'') \<and> (\<forall>p \<in> set (ps @ qs). \<not> startsWith p ''-'')"
  then show "helpRequested (ps @ h # qs)" by (simp add: help_among_positionals)
qed

lemma example_bogus:
  "parseArgs options [''--help'', ''--bogus''] = Inl (UnknownOption ''--bogus'')"
proof -
  have "case parseArgs options [''--help'', ''--bogus''] of
          Inl err \<Rightarrow> err = UnknownOption ''--bogus'' | Inr _ \<Rightarrow> False"
    by code_simp
  then show ?thesis by (simp split: sum.splits)
qed

lemma example_missing_value:
  "parseArgs options [''-h'', ''--access''] = Inl (ArgumentMissing ''access'')"
proof -
  have "case parseArgs options [''-h'', ''--access''] of
          Inl err \<Rightarrow> err = ArgumentMissing ''access'' | Inr _ \<Rightarrow> False"
    by code_simp
  then show ?thesis by (simp split: sum.splits)
qed

theorem help_with_unknown_option:
  "''--help'' \<in> set [''--help'', ''--bogus''] \<and>
   fst (run quietEnv [''--help'', ''--bogus''] Map.empty) = 1 \<and>
   trace (snd (run quietEnv [''--help'', ''--bogus''] Map.empty))
     = [UncaughtParseArgsError (UnknownOption ''--bogus'')] \<and>
   ConsoleLog usage \<notin> set (trace (snd (run quietEnv [''--help'', ''--bogus''] Map.empty)))"
  by (simp add: run_def example_bogus)

theorem help_exits_at_once_witness:
  "helpRequested [''-h'', ''Invalid_Name!''] \<and> \<not> test validPackageNameRegex ''Invalid_Name!'' \<and>
   run quietEnv [''-h'', ''Invalid_Name!''] Map.empty = (0, \<lparr>fs = Map.empty, trace = [ConsoleLog usage]\<rparr>) \<and>
   parseArgs options [''-h'', ''--access''] = Inl (ArgumentMissing ''access'') \<and>
   run quietEnv [''-h'', ''--access''] Map.empty
     = (1, \<lparr>fs = Map.empty, trace = [UncaughtParseArgsError (ArgumentMissing ''access'')]\<rparr>) \<and>
   \<not> startsWith ''Invalid_Name!'' ''-'' \<and>
   helpRequested [''--help''] \<and> helpRequested [''Invalid_Name!'', ''--help'']"
proof -
  have n: "\<not> test validPackageNameRegex ''Invalid_Name!''" by code_simp
  have s: "\<not> startsWith ''Invalid_Name!'' ''-''" by (simp add: startsWith_def)
  have a: "helpRequested ([] @ ''-h'' # [''Invalid_Name!''])"
    using help_exits_at_once[of _ _ _ _ "''-h''" "[]" "[''Invalid_Name!'']"] s by simp
  have b: "helpRequested ([] @ ''--help'' # [])"
    using help_exits_at_once[of _ _ _ _ "''--help''" "[]" "[]"] by simp
  have c: "helpRequested ([''Invalid_Name!''] @ ''--help'' # [])"
    using help_exits_at_once[of _ _ _ _ "''--help''" "[''Invalid_Name!'']" "[]"] s by simp
  from a have r: "run quietEnv [''-h'', ''Invalid_Name!''] Map.empty
                    = (0, \<lparr>fs = Map.empty, trace = [ConsoleLog usage]\<rparr>)"
    using help_exits_at_once[of "[''-h'', ''Invalid_Name!'']" quietEnv Map.empty] by simp
  have f: "run quietEnv [''-h'', ''--access''] Map.empty
     = (1, \<lparr>fs = Map.empty, trace = [UncaughtParseArgsError (ArgumentMissing ''access'')]\<rparr>)"
    using help_exits_at_once[of "[''-h'', ''--access'']" quietEnv Map.empty "ArgumentMissing ''access''"]
      example_missing_value by simp
  from n s a b c r f example_missing_value show ?thesis by simp
qed

end
